theory Spec2Isabelle
  imports Main "HOL-Library.FSet"
begin

section \<open>Python values used by the monitor\<close>

text \<open>
  Strings are lists of characters; a \<open>char\<close> stands for the code point of the same
  number (0 to 255).  The exceptions that the modelled code can raise are values of
  \<open>error\<close>; a function that can raise returns \<open>error + 'a\<close>, with \<open>Inl\<close> the exception.
  \<open>Unmodelled\<close> marks the few inputs on which the embedding does not say what Python
  does (decimal literals with an exponent part or naming a special value).
\<close>

datatype error =
    KeyError string
  | ValueError
  | InvalidOperation
  | Overflow
  | DivisionByZero
  | Unmodelled

definition bind :: "error + 'a \<Rightarrow> ('a \<Rightarrow> error + 'b) \<Rightarrow> error + 'b" where
  "bind m f = (case m of Inl e \<Rightarrow> Inl e | Inr x \<Rightarrow> f x)"

subsection \<open>str.lower, str.strip\<close>

definition lower_char :: "char \<Rightarrow> char" where
  "lower_char c =
     (let n = (of_char c :: nat) in
      if (65 \<le> n \<and> n \<le> 90) \<or> (192 \<le> n \<and> n \<le> 222 \<and> n \<noteq> 215)
      then char_of (n + 32) else c)"

definition lower :: "string \<Rightarrow> string" where
  "lower s = map lower_char s"

text \<open>\<open>str.isspace\<close> on one character, and the narrower class that \<open>int()\<close> strips.\<close>

definition isspace :: "char \<Rightarrow> bool" where
  "isspace c =
     (let n = (of_char c :: nat) in
      (9 \<le> n \<and> n \<le> 13) \<or> (28 \<le> n \<and> n \<le> 32) \<or> n = 133 \<or> n = 160)"

definition int_space :: "char \<Rightarrow> bool" where
  "int_space c =
     (let n = (of_char c :: nat) in
      (9 \<le> n \<and> n \<le> 13) \<or> n = 32 \<or> n = 133 \<or> n = 160)"

definition strip_by :: "(char \<Rightarrow> bool) \<Rightarrow> string \<Rightarrow> string" where
  "strip_by p s = rev (dropWhile p (rev (dropWhile p s)))"

subsection \<open>int(s) and int(s, 16)\<close>

definition digit_val :: "int \<Rightarrow> char \<Rightarrow> int option" where
  "digit_val base c =
     (let n = (of_char c :: int);
          v = (if 48 \<le> n \<and> n \<le> 57 then n - 48
               else if 97 \<le> n \<and> n \<le> 122 then n - 87
               else if 65 \<le> n \<and> n \<le> 90 then n - 55
               else base)
      in if v < base then Some v else None)"

text \<open>The digits after the first one: a single underscore may stand between two digits.\<close>

fun more_digits :: "int \<Rightarrow> string \<Rightarrow> int \<Rightarrow> int option" where
  "more_digits base [] acc = Some acc"
| "more_digits base (c # cs) acc =
     (if c = CHR ''_'' then
        (case cs of
           [] \<Rightarrow> None
         | d # ds \<Rightarrow>
             (case digit_val base d of
                None \<Rightarrow> None
              | Some v \<Rightarrow> more_digits base ds (acc * base + v)))
      else
        (case digit_val base c of
           None \<Rightarrow> None
         | Some v \<Rightarrow> more_digits base cs (acc * base + v)))"

definition digits_lit :: "int \<Rightarrow> string \<Rightarrow> int option" where
  "digits_lit base s =
     (case s of
        [] \<Rightarrow> None
      | c # cs \<Rightarrow>
          (case digit_val base c of
             None \<Rightarrow> None
           | Some v \<Rightarrow> more_digits base cs v))"

definition skip_prefix :: "int \<Rightarrow> string \<Rightarrow> string" where
  "skip_prefix base s =
     (case s of
        c0 # c1 # r \<Rightarrow>
          (if base = 16 \<and> c0 = CHR ''0'' \<and> (c1 = CHR ''x'' \<or> c1 = CHR ''X'')
           then (case r of u # r' \<Rightarrow> (if u = CHR ''_'' then r' else r) | [] \<Rightarrow> r)
           else s)
      | _ \<Rightarrow> s)"

definition py_int :: "int \<Rightarrow> string \<Rightarrow> error + int" where
  "py_int base s =
     (let t = strip_by int_space s;
          (neg, body) =
            (case t of
               [] \<Rightarrow> (False, t)
             | c # r \<Rightarrow>
                 (if c = CHR ''-'' then (True, r)
                  else if c = CHR ''+'' then (False, r)
                  else (False, t)))
      in case digits_lit base (skip_prefix base body) of
           None \<Rightarrow> Inl ValueError
         | Some n \<Rightarrow> Inr (if neg then - n else n))"

subsection \<open>str(n)\<close>

function digits_of :: "int \<Rightarrow> string" where
  "digits_of n =
     (if n < 10 then [char_of (48 + n)]
      else digits_of (n div 10) @ [char_of (48 + n mod 10)])"
  by pat_completeness auto
termination
  by (relation "measure nat") auto

declare digits_of.simps [simp del]

definition str_int :: "int \<Rightarrow> string" where
  "str_int i = (if i < 0 then CHR ''-'' # digits_of (- i) else digits_of i)"

section \<open>The decimal module under its default context\<close>

text \<open>
  \<open>format_token_amount\<close> computes with Python's \<open>decimal.Decimal\<close> under the default
  context: precision 28, rounding half-even, Emin = -999999, Emax = 999999, with the
  signals InvalidOperation, DivisionByZero and Overflow raised as exceptions.  A finite
  decimal is a sign, a coefficient and an exponent; the number of digits of the
  coefficient is the length of its decimal numeral.
\<close>

datatype decimal = Dec (dsign: bool) (dint: int) (dexp: int)

definition prec :: int where "prec = 28"
definition Emax :: int where "Emax = 999999"
definition Emin :: int where "Emin = - 999999"
definition Etiny :: int where "Etiny = Emin - prec + 1"
definition Etop :: int where "Etop = Emax - prec + 1"

definition ndigits :: "int \<Rightarrow> int" where
  "ndigits n = int (length (digits_of n))"

text \<open>
  \<open>Decimal(s)\<close> for a string: surrounding whitespace is stripped and every underscore
  removed; then an optional sign, and digits with at most one decimal point and at least
  one digit.  Literals with an exponent part, and the names of infinities and NaNs, are
  not modelled: a string that holds one of the letters they need is \<open>Unmodelled\<close>.
\<close>

definition all_digits :: "string \<Rightarrow> bool" where
  "all_digits s = (\<forall>c \<in> set s. digit_val 10 c \<noteq> None)"

definition digits_value :: "string \<Rightarrow> int" where
  "digits_value s = foldl (\<lambda>acc c. acc * 10 + the (digit_val 10 c)) 0 s"

definition Decimal :: "string \<Rightarrow> error + decimal" where
  "Decimal s =
     (let t = filter (\<lambda>c. c \<noteq> CHR ''_'') (strip_by isspace s);
          (neg, body) =
            (case t of
               [] \<Rightarrow> (False, t)
             | c # r \<Rightarrow>
                 (if c = CHR ''-'' then (True, r)
                  else if c = CHR ''+'' then (False, r)
                  else (False, t)));
          intpart = takeWhile (\<lambda>c. c \<noteq> CHR ''.'') body;
          fracpart = drop 1 (dropWhile (\<lambda>c. c \<noteq> CHR ''.'') body)
      in if all_digits intpart \<and> all_digits fracpart \<and> intpart @ fracpart \<noteq> []
         then Inr (Dec neg (digits_value (intpart @ fracpart)) (- int (length fracpart)))
         else if \<exists>c \<in> set t. c \<in> set ''eEiInNsS'' then Inl Unmodelled
         else Inl InvalidOperation)"

text \<open>
  Rounding a result to the context (\<open>_fix\<close>): at most \<open>prec\<close> digits, half-even, the
  exponent kept between \<open>Etiny\<close> and \<open>Etop\<close>; a result above \<open>Emax\<close> raises Overflow.
\<close>

definition dec_fix :: "decimal \<Rightarrow> error + decimal" where
  "dec_fix d =
     (if dint d = 0 then
        Inr (Dec (dsign d) 0 (min (max (dexp d) Etiny) Emax))
      else
        let exp_min0 = ndigits (dint d) + dexp d - prec in
        if exp_min0 > Etop then Inl Overflow
        else
          let exp_min = max exp_min0 Etiny in
          if dexp d < exp_min then
            let digits0 = ndigits (dint d) + dexp d - exp_min;
                (c, e) = (if digits0 < 0 then (1, exp_min - 1) else (dint d, dexp d));
                k = nat (exp_min - e);
                q = c div 10 ^ k;
                r = c mod 10 ^ k;
                up = (2 * r > 10 ^ k \<or> (2 * r = 10 ^ k \<and> odd q));
                coeff = (if up then q + 1 else q);
                (coeff', exp') =
                  (if up \<and> ndigits coeff > prec then (coeff div 10, exp_min + 1)
                   else (coeff, exp_min))
            in if exp' > Etop then Inl Overflow else Inr (Dec (dsign d) coeff' exp')
          else Inr d)"

text \<open>The loop of an exact division: drop trailing zeros up to the ideal exponent.\<close>

function to_ideal :: "int \<Rightarrow> int \<Rightarrow> int \<Rightarrow> int \<times> int" where
  "to_ideal ideal_exp coeff exp =
     (if exp < ideal_exp \<and> coeff mod 10 = 0
      then to_ideal ideal_exp (coeff div 10) (exp + 1)
      else (coeff, exp))"
  by pat_completeness auto
termination
  by (relation "measure (\<lambda>(ideal_exp, coeff, exp). nat (ideal_exp - exp))") auto

declare to_ideal.simps [simp del]

definition truediv :: "decimal \<Rightarrow> decimal \<Rightarrow> error + decimal" where
  "truediv a b =
     (let sign = (dsign a \<noteq> dsign b) in
      if dint b = 0 then
        (if dint a = 0 then Inl InvalidOperation else Inl DivisionByZero)
      else if dint a = 0 then dec_fix (Dec sign 0 (dexp a - dexp b))
      else
        let shift = ndigits (dint b) - ndigits (dint a) + prec + 1;
            exp = dexp a - dexp b - shift;
            (coeff, remainder) =
              (if shift \<ge> 0
               then ((dint a * 10 ^ nat shift) div dint b, (dint a * 10 ^ nat shift) mod dint b)
               else (dint a div (dint b * 10 ^ nat (- shift)),
                     dint a mod (dint b * 10 ^ nat (- shift))));
            (coeff', exp') =
              (if remainder \<noteq> 0
               then (if coeff mod 5 = 0 then coeff + 1 else coeff, exp)
               else to_ideal (dexp a - dexp b) coeff exp)
        in dec_fix (Dec sign coeff' exp'))"

text \<open>
  \<open>Decimal(10) ** n\<close> for an integer \<open>n\<close>: exact, the coefficient a one followed by at
  most \<open>prec\<close> zeros, unless the crude bound on the exponent already decides an overflow or
  an underflow to zero; the result is rounded to the context.
\<close>

definition pow10 :: "int \<Rightarrow> error + decimal" where
  "pow10 n =
     (if n = 0 then Inr (Dec False 1 0)
      else
        let bound = ndigits \<bar>n\<bar> - 1 in
        if n > 0 then
          (if bound \<ge> ndigits Emax then dec_fix (Dec False 1 (Emax + 1))
           else let zeros = min n prec in dec_fix (Dec False (10 ^ nat zeros) (n - zeros)))
        else
          (if bound \<ge> ndigits (- Etiny) then dec_fix (Dec False 1 (Etiny - 1))
           else dec_fix (Dec False 1 n)))"

text \<open>\<open>normalize\<close>: round, turn a zero into \<open>0\<close>, and strip every trailing zero.\<close>

function strip_zeros :: "int \<Rightarrow> int \<Rightarrow> int \<times> int" where
  "strip_zeros coeff exp =
     (if coeff > 0 \<and> coeff mod 10 = 0 \<and> exp < Emax
      then strip_zeros (coeff div 10) (exp + 1)
      else (coeff, exp))"
  by pat_completeness auto
termination
  by (relation "measure (\<lambda>(coeff, exp). nat coeff)") auto

declare strip_zeros.simps [simp del]

definition normalize_dec :: "decimal \<Rightarrow> error + decimal" where
  "normalize_dec d =
     bind (dec_fix d) (\<lambda>dup.
       if dint dup = 0 then Inr (Dec (dsign dup) 0 0)
       else let (c, e) = strip_zeros (dint dup) (dexp dup) in Inr (Dec (dsign dup) c e))"

text \<open>\<open>str\<close> of a finite decimal: plain notation when the exponent is at most 0 and
  the number is not below 1E-6 in magnitude of its leading digit, scientific otherwise.\<close>

definition str_decimal :: "decimal \<Rightarrow> string" where
  "str_decimal d =
     (let sign = (if dsign d then ''-'' else '''');
          ds = digits_of (dint d);
          leftdigits = dexp d + int (length ds);
          dotplace = (if dexp d \<le> 0 \<and> leftdigits > - 6 then leftdigits else 1);
          intpart =
            (if dotplace \<le> 0 then ''0''
             else if dotplace \<ge> int (length ds)
               then ds @ replicate (nat (dotplace - int (length ds))) CHR ''0''
             else take (nat dotplace) ds);
          fracpart =
            (if dotplace \<le> 0 then ''.'' @ replicate (nat (- dotplace)) CHR ''0'' @ ds
             else if dotplace \<ge> int (length ds) then ''''
             else ''.'' @ drop (nat dotplace) ds);
          exp =
            (if leftdigits = dotplace then ''''
             else ''E'' @ (if leftdigits - dotplace \<ge> 0 then ''+'' else '''')
                  @ str_int (leftdigits - dotplace))
      in sign @ intpart @ fracpart @ exp)"

section \<open>Amount formatter\<close>

text \<open>
  The decimals count reaches \<open>format_token_amount\<close> as a string in the program; the
  function also takes an integer, and anything else (\<open>None\<close>) makes \<open>int()\<close> raise
  TypeError, which selects the default like a string that does not parse.
\<close>

datatype pyval = PStr string | PInt int | PNone

definition format_token_amount :: "string \<Rightarrow> pyval \<Rightarrow> error + string" where
  "format_token_amount raw_value token_decimal =
     (let decimals =
            (case token_decimal of
               PStr s \<Rightarrow> (case py_int 10 s of Inl _ \<Rightarrow> 18 | Inr n \<Rightarrow> n)
             | PInt n \<Rightarrow> n
             | PNone \<Rightarrow> 18)
      in if decimals = 0 then Inr raw_value
         else
           bind (Decimal raw_value) (\<lambda>x.
           bind (pow10 decimals) (\<lambda>p.
           bind (truediv x p) (\<lambda>amount.
           bind (normalize_dec amount) (\<lambda>n.
           Inr (str_decimal n))))))"

section \<open>Query client\<close>

text \<open>
  A record of a reply (a transfer or an event log) is a Python dict with string keys; the
  explorer API sends every field as a string, so the values are strings.  \<open>d.get(k, v)\<close>
  is \<open>get d k v\<close>, \<open>d.get(k)\<close> is \<open>d k\<close>, and \<open>d[k]\<close> is \<open>subscript d k\<close>, which raises
  KeyError on a missing key.
\<close>

type_synonym pydict = "string \<rightharpoonup> string"

definition get :: "pydict \<Rightarrow> string \<Rightarrow> string \<Rightarrow> string" where
  "get d k dflt = (case d k of None \<Rightarrow> dflt | Some v \<Rightarrow> v)"

definition subscript :: "pydict \<Rightarrow> string \<Rightarrow> error + string" where
  "subscript d k = (case d k of None \<Rightarrow> Inl (KeyError k) | Some v \<Rightarrow> Inr v)"

text \<open>
  What one HTTP request comes back with: an exception of the transport (which includes
  a non-2xx status, through \<open>raise_for_status\<close>), a body that does not parse, or a JSON
  object of which the code reads the keys \<open>status\<close>, \<open>message\<close> and \<open>result\<close>; a key
  that is absent is \<open>None\<close>.  The text carried by a failure is the text of the exception.
  The result of a list query is a list of records.
\<close>

datatype 'r response =
    RequestException string
  | ParseError string
  | Body (status: "string option") (message: "string option") (result: "'r option")

datatype effect = Print string | Play string

text \<open>\<open>sub in s\<close> on strings.\<close>

fun contains :: "string \<Rightarrow> string \<Rightarrow> bool" where
  "contains [] sub = (sub = [])"
| "contains (c # cs) sub = (take (length sub) (c # cs) = sub \<or> contains cs sub)"

definition MAX_SEEN_HASHES :: nat where
  "MAX_SEEN_HASHES = 1000"

text \<open>\<open>TRANSFER_TYPES\<close>, in the order of the dict: the name, the query action, the sound.\<close>

definition TRANSFER_TYPES :: "(string \<times> string \<times> string) list" where
  "TRANSFER_TYPES =
     [(''ETH'', ''txlist'', ''/System/Library/Sounds/Ping.aiff''),
      (''TOKEN'', ''tokentx'', ''/System/Library/Sounds/Glass.aiff''),
      (''NFT'', ''tokennfttx'', ''/System/Library/Sounds/Funk.aiff'')]"

definition AAVE_SOUND :: string where
  "AAVE_SOUND = ''/System/Library/Sounds/Hero.aiff''"

definition AAVE_LOOKBACK_BLOCKS :: int where
  "AAVE_LOOKBACK_BLOCKS = 200"

text \<open>
  The fetch functions return the list (\<open>Some\<close>) or \<open>None\<close>, together with the line they
  print on a failure.
\<close>

definition fetch_transfers :: "string \<Rightarrow> pydict list response \<Rightarrow> pydict list option \<times> effect list" where
  "fetch_transfers action resp =
     (case resp of
        RequestException e \<Rightarrow> (None, [Print (''  ['' @ action @ '' network error] '' @ e)])
      | ParseError e \<Rightarrow> (None, [Print (''  ['' @ action @ '' parse error] '' @ e)])
      | Body st msg res \<Rightarrow>
          (if st \<noteq> Some ''1'' then
             (if contains (case msg of None \<Rightarrow> [] | Some m \<Rightarrow> m) ''No transactions found''
              then (Some [], [])
              else (None, [Print (''  ['' @ action @ ''] ''
                                  @ (case msg of None \<Rightarrow> ''Unknown error'' | Some m \<Rightarrow> m))]))
           else (Some (case res of None \<Rightarrow> [] | Some r \<Rightarrow> r), [])))"

definition fetch_aave_supply_logs :: "pydict list response \<Rightarrow> pydict list option \<times> effect list" where
  "fetch_aave_supply_logs resp =
     (case resp of
        RequestException e \<Rightarrow> (None, [Print (''  [aave getLogs network error] '' @ e)])
      | ParseError e \<Rightarrow> (None, [Print (''  [aave getLogs parse error] '' @ e)])
      | Body st m res \<Rightarrow>
          (if st \<noteq> Some ''1'' then
             (let msg = (case m of None \<Rightarrow> [] | Some t \<Rightarrow> t) in
              if contains msg ''No records found'' \<or> contains msg ''No transactions found''
              then (Some [], [])
              else (None, [Print (''  [aave getLogs] ''
                                  @ (if msg = [] then ''Unknown error'' else msg))]))
           else (Some (case res of None \<Rightarrow> [] | Some r \<Rightarrow> r), [])))"

section \<open>Event decoder\<close>

record supply_event =
  tx_hash :: string
  block_number :: int
  sender :: "string option"
  user :: string
  amount_display :: string

text \<open>The slice \<open>s[a:b]\<close> for \<open>0 \<le> a \<le> b\<close>.\<close>

definition slice :: "string \<Rightarrow> nat \<Rightarrow> nat \<Rightarrow> string" where
  "slice s a b = drop a (take b s)"

text \<open>
  \<open>get_tx_sender\<close> swallows every exception and returns the \<open>from\<close> field of the
  transaction or \<open>None\<close>; its answer for a hash is the parameter \<open>tx_sender\<close>.
\<close>

definition decode_supply_event :: "pydict \<Rightarrow> (string \<Rightarrow> string option) \<Rightarrow> error + supply_event" where
  "decode_supply_event log tx_sender =
     (let data = get log ''data'' ''0x'';
          h = get log ''transactionHash'' [];
          u = (if length data \<ge> 66 then ''0x'' @ slice data 26 66 else ''unknown'')
      in bind (if length data \<ge> 130 then py_int 16 (slice data 66 130) else Inr 0) (\<lambda>amount_wei.
         bind (format_token_amount (str_int amount_wei) (PStr ''18'')) (\<lambda>amount.
         let s = (if h \<noteq> [] then tx_sender h else None) in
         bind (py_int 16 (get log ''blockNumber'' ''0x0'')) (\<lambda>b.
         Inr \<lparr>tx_hash = h, block_number = b, sender = s, user = u,
              amount_display = amount\<rparr>))))"

definition rule60 :: string where
  "rule60 = replicate 60 CHR ''=''"

definition print_supply_event :: "supply_event \<Rightarrow> effect list" where
  "print_supply_event event =
     [Print (CHR 0x0A # rule60),
      Print ''  AAVE V3 WETH SUPPLY DETECTED'',
      Print (''  Amount: '' @ amount_display event @ '' WETH'')]
     @ (case sender event of
          None \<Rightarrow> [Print (''  User:   '' @ user event)]
        | Some s \<Rightarrow>
            (if s \<noteq> [] then
               Print (''  Sender: '' @ s)
               # (if lower (user event) \<noteq> lower s then [Print (''  Via:    '' @ user event)]
                  else [])
             else [Print (''  User:   '' @ user event)]))
     @ [Print (''  Tx:     '' @ tx_hash event),
        Print (rule60 @ [CHR 0x0A])]"

section \<open>Transfer filter and alert\<close>

fun eth_only :: "pydict list \<Rightarrow> error + pydict list" where
  "eth_only [] = Inr []"
| "eth_only (tx # txs) =
     (if tx ''isError'' \<noteq> Some ''1'' then
        bind (py_int 10 (get tx ''value'' ''0'')) (\<lambda>v.
        bind (eth_only txs) (\<lambda>r. Inr (if v > 0 then tx # r else r)))
      else eth_only txs)"

definition filter_incoming :: "pydict list \<Rightarrow> string \<Rightarrow> string \<Rightarrow> error + pydict list" where
  "filter_incoming transfers address transfer_type =
     (let addr_lower = lower address;
          incoming = filter (\<lambda>tx. lower (get tx ''to'' []) = addr_lower) transfers
      in if transfer_type = ''ETH'' then eth_only incoming else Inr incoming)"

text \<open>
  An action that prints or plays before it returns or raises yields what it emitted up
  to that point together with its result; \<open>io_bind\<close> runs the second action after the
  first unless the first raised.
\<close>

type_synonym 'a io = "effect list \<times> (error + 'a)"

definition io_bind :: "'a io \<Rightarrow> ('a \<Rightarrow> 'b io) \<Rightarrow> 'b io" where
  "io_bind m f =
     (case m of
        (out, Inl e) \<Rightarrow> (out, Inl e)
      | (out, Inr x) \<Rightarrow> (case f x of (out', r) \<Rightarrow> (out @ out', r)))"

definition lift :: "error + 'a \<Rightarrow> 'a io" where
  "lift m = ([], m)"

definition emit :: "effect list \<Rightarrow> unit io" where
  "emit out = (out, Inr ())"

definition print_transfer :: "pydict \<Rightarrow> string \<Rightarrow> unit io" where
  "print_transfer tx transfer_type =
     (let sender = get tx ''from'' ''unknown'';
          h = get tx ''hash'' []
      in io_bind (emit [Print (CHR 0x0A # rule60),
                        Print (''  NEW '' @ transfer_type @ '' TRANSFER DETECTED'')]) (\<lambda>_.
         io_bind
           (if transfer_type = ''ETH'' then
              io_bind (lift (format_token_amount (get tx ''value'' ''0'') (PStr ''18''))) (\<lambda>amount.
              emit [Print (''  Amount: '' @ amount @ '' ETH'')])
            else if transfer_type = ''TOKEN'' then
              (let token_name = get tx ''tokenName'' ''Unknown'';
                   token_symbol = get tx ''tokenSymbol'' ''???''
               in io_bind (lift (format_token_amount (get tx ''value'' ''0'')
                                   (PStr (get tx ''tokenDecimal'' ''18'')))) (\<lambda>amount.
                  emit [Print (''  Token:  '' @ token_name @ '' ('' @ token_symbol @ '')''),
                        Print (''  Amount: '' @ amount @ '' '' @ token_symbol)]))
            else if transfer_type = ''NFT'' then
              emit [Print (''  Token:  '' @ get tx ''tokenName'' ''Unknown'' @ '' #''
                           @ get tx ''tokenID'' ''?'')]
            else emit []) (\<lambda>_.
         emit [Print (''  From:   '' @ sender),
               Print (''  Tx:     '' @ h),
               Print (rule60 @ [CHR 0x0A])])))"

section \<open>Poll loop\<close>

text \<open>
  The state that \<open>monitor\<close> keeps between rounds: the Seen Set of each transfer type,
  the phase flag, and the Seen Set and Block Cursor of the protocol channel.
\<close>

record state =
  seen :: "string \<Rightarrow> string fset"
  first_run :: bool
  aave_seen :: "string fset"
  aave_from_block :: int

text \<open>
  What the outside world answers in one round: the reply to the list query of each
  action, the reply to the log query, and the answers of the sender lookup.
\<close>

record round_input =
  transfer_reply :: "string \<Rightarrow> pydict list response"
  aave_reply :: "pydict list response"
  tx_sender :: "string \<Rightarrow> string option"

text \<open>The first-run loop \<open>for tx in incoming: seen.add(tx["hash"])\<close>.\<close>

fun seed :: "pydict list \<Rightarrow> string fset \<Rightarrow> error + string fset" where
  "seed [] S = Inr S"
| "seed (tx # txs) S = bind (subscript tx ''hash'') (\<lambda>h. seed txs (finsert h S))"

text \<open>The steady loop that collects \<open>new_transfers\<close> and adds their hashes.\<close>

fun collect_new :: "pydict list \<Rightarrow> pydict list \<Rightarrow> string fset
    \<Rightarrow> error + (pydict list \<times> string fset)" where
  "collect_new [] new_transfers S = Inr (new_transfers, S)"
| "collect_new (tx # txs) new_transfers S =
     bind (subscript tx ''hash'') (\<lambda>h.
       if h |\<notin>| S then collect_new txs (new_transfers @ [tx]) (finsert h S)
       else collect_new txs new_transfers S)"

text \<open>The alert loop: \<open>print_transfer\<close> and \<open>play_alert\<close> for each record in turn.\<close>

fun alert_transfers :: "pydict list \<Rightarrow> string \<Rightarrow> string \<Rightarrow> unit io" where
  "alert_transfers [] transfer_type sound = emit []"
| "alert_transfers (tx # txs) transfer_type sound =
     io_bind (print_transfer tx transfer_type) (\<lambda>_.
     io_bind (emit [Play sound]) (\<lambda>_.
     alert_transfers txs transfer_type sound))"

text \<open>The set comprehension \<open>{tx["hash"] for tx in incoming}\<close>.\<close>

fun hash_set :: "pydict list \<Rightarrow> error + string fset" where
  "hash_set [] = Inr {||}"
| "hash_set (tx # txs) =
     bind (subscript tx ''hash'') (\<lambda>h. bind (hash_set txs) (\<lambda>S. Inr (finsert h S)))"

text \<open>
  One pass of the body of \<open>for transfer_type, config in TRANSFER_TYPES.items()\<close>, on the
  Seen Set \<open>S\<close> of that type; \<open>first\<close> is \<open>first_run\<close>.
\<close>

definition transfer_round :: "string \<Rightarrow> bool \<Rightarrow> string \<times> string \<times> string
    \<Rightarrow> pydict list response \<Rightarrow> string fset \<Rightarrow> string fset io" where
  "transfer_round address first cfg resp S =
     (case cfg of (transfer_type, action, sound) \<Rightarrow>
        (case fetch_transfers action resp of
           (None, out) \<Rightarrow> (out, Inr S)
         | (Some transfers, out) \<Rightarrow>
             io_bind (emit out) (\<lambda>_.
             io_bind (lift (filter_incoming transfers address transfer_type)) (\<lambda>incoming.
             io_bind
               (if first then lift (seed incoming S)
                else io_bind (lift (collect_new incoming [] S)) (\<lambda>(new_transfers, S1).
                     io_bind (alert_transfers (rev new_transfers) transfer_type sound) (\<lambda>_.
                     lift (Inr S1)))) (\<lambda>S1.
             lift (if fcard S1 > MAX_SEEN_HASHES then hash_set incoming else Inr S1))))))"

text \<open>The loop over the three transfer types, in their order.\<close>

fun transfer_rounds :: "string \<Rightarrow> bool \<Rightarrow> (string \<times> string \<times> string) list
    \<Rightarrow> (string \<Rightarrow> pydict list response) \<Rightarrow> (string \<Rightarrow> string fset)
    \<Rightarrow> (string \<Rightarrow> string fset) io" where
  "transfer_rounds address first [] reply sn = lift (Inr sn)"
| "transfer_rounds address first (cfg # cfgs) reply sn =
     io_bind (transfer_round address first cfg (reply (fst (snd cfg))) (sn (fst cfg))) (\<lambda>S.
     transfer_rounds address first cfgs reply (sn(fst cfg := S)))"

text \<open>The protocol channel: seeding, the steady loops, the cursor, the reset.\<close>

definition aave_seed :: "pydict list \<Rightarrow> string fset \<Rightarrow> string fset" where
  "aave_seed logs S = fold (\<lambda>log T. finsert (get log ''transactionHash'' []) T) logs S"

fun aave_collect_new :: "pydict list \<Rightarrow> pydict list \<Rightarrow> string fset
    \<Rightarrow> pydict list \<times> string fset" where
  "aave_collect_new [] new_events S = (new_events, S)"
| "aave_collect_new (log # logs) new_events S =
     (let h = get log ''transactionHash'' [] in
      if h \<noteq> [] \<and> h |\<notin>| S then aave_collect_new logs (new_events @ [log]) (finsert h S)
      else aave_collect_new logs new_events S)"

fun alert_events :: "pydict list \<Rightarrow> (string \<Rightarrow> string option) \<Rightarrow> unit io" where
  "alert_events [] lookup = emit []"
| "alert_events (log # logs) lookup =
     io_bind (lift (decode_supply_event log lookup)) (\<lambda>event.
     io_bind (emit (print_supply_event event)) (\<lambda>_.
     io_bind (emit [Play AAVE_SOUND]) (\<lambda>_.
     alert_events logs lookup)))"

fun advance :: "pydict list \<Rightarrow> int \<Rightarrow> error + int" where
  "advance [] from_block = Inr from_block"
| "advance (log # logs) from_block =
     bind (py_int 16 (get log ''blockNumber'' ''0x0'')) (\<lambda>block_num.
     advance logs (if block_num > from_block then block_num else from_block))"

definition aave_round :: "bool \<Rightarrow> pydict list response \<Rightarrow> (string \<Rightarrow> string option)
    \<Rightarrow> string fset \<times> int \<Rightarrow> (string fset \<times> int) io" where
  "aave_round first resp lookup st =
     (case st of (S, from_block) \<Rightarrow>
        (case fetch_aave_supply_logs resp of
           (None, out) \<Rightarrow> (out, Inr (S, from_block))
         | (Some logs, out) \<Rightarrow>
             io_bind (emit out) (\<lambda>_.
             io_bind
               (if first then lift (Inr (aave_seed logs S))
                else (case aave_collect_new logs [] S of (new_events, S1) \<Rightarrow>
                        io_bind (alert_events new_events lookup) (\<lambda>_. lift (Inr S1)))) (\<lambda>S1.
             io_bind (lift (advance logs from_block)) (\<lambda>from_block'.
             lift (Inr (if fcard S1 > MAX_SEEN_HASHES
                        then fset_of_list (map (\<lambda>log. get log ''transactionHash'' []) logs)
                        else S1,
                        from_block')))))))"

text \<open>
  One round of \<open>while True\<close>: the transfer channels, the protocol channel when it is
  watched, then the end of the first run.  The sleep has no effect on the state.
\<close>

definition monitor_round :: "string \<Rightarrow> bool \<Rightarrow> state \<Rightarrow> round_input \<Rightarrow> state io" where
  "monitor_round address watch_aave s inp =
     io_bind (transfer_rounds address (first_run s) TRANSFER_TYPES (transfer_reply inp) (seen s))
       (\<lambda>sn.
     io_bind (if watch_aave
              then aave_round (first_run s) (aave_reply inp) (tx_sender inp)
                     (aave_seen s, aave_from_block s)
              else lift (Inr (aave_seen s, aave_from_block s))) (\<lambda>(S, from_block).
     lift (Inr \<lparr>seen = sn, first_run = False, aave_seen = S, aave_from_block = from_block\<rparr>)))"

text \<open>
  The rounds of the loop on the inputs of a finite run.  An exception is raised to the
  caller of \<open>monitor\<close>: it ends the run.
\<close>

fun monitor_loop :: "string \<Rightarrow> bool \<Rightarrow> state \<Rightarrow> round_input list \<Rightarrow> state io" where
  "monitor_loop address watch_aave s [] = lift (Inr s)"
| "monitor_loop address watch_aave s (inp # inps) =
     io_bind (monitor_round address watch_aave s inp) (\<lambda>s'.
     monitor_loop address watch_aave s' inps)"

text \<open>The state before the first round; \<open>block\<close> is what \<open>get_current_block\<close> returned.\<close>

definition initial_state :: "bool \<Rightarrow> int option \<Rightarrow> state" where
  "initial_state watch_aave block =
     \<lparr>seen = (\<lambda>t. {||}), first_run = True, aave_seen = {||},
      aave_from_block =
        (if watch_aave then
           (case block of None \<Rightarrow> 0 | Some b \<Rightarrow> max 0 (b - AAVE_LOOKBACK_BLOCKS))
         else 0)\<rparr>"

section \<open>Notions used to state the properties\<close>

text \<open>
  The identifier of a transfer and of a log, the identifier set of a window, and the
  new records of a window with respect to a Seen Set \<open>S\<close>: the records, in the order of
  the window, whose identifier is not in \<open>S\<close> and does not occur earlier in the window.
\<close>

definition ident :: "pydict \<Rightarrow> string" where
  "ident tx = get tx ''hash'' []"

definition log_ident :: "pydict \<Rightarrow> string" where
  "log_ident log = get log ''transactionHash'' []"

definition idents :: "(pydict \<Rightarrow> string) \<Rightarrow> pydict list \<Rightarrow> string fset" where
  "idents f xs = fset_of_list (map f xs)"

definition new_records :: "(pydict \<Rightarrow> string) \<Rightarrow> pydict list \<Rightarrow> string fset \<Rightarrow> pydict list" where
  "new_records f xs S =
     map (nth xs)
       (filter (\<lambda>i. f (xs ! i) |\<notin>| S \<and> f (xs ! i) \<notin> f ` set (take i xs)) [0..<length xs])"

text \<open>The block number of a log, where it parses.\<close>

definition block_num :: "pydict \<Rightarrow> int" where
  "block_num log = (case py_int 16 (get log ''blockNumber'' ''0x0'') of Inr b \<Rightarrow> b | Inl e \<Rightarrow> 0)"

text \<open>
  The page sizes that the queries ask for: at most 10 records in a transfer list and at
  most 1000 logs.
\<close>

definition page_sized :: "round_input \<Rightarrow> bool" where
  "page_sized inp \<longleftrightarrow>
     (\<forall>action transfers out.
        fetch_transfers action (transfer_reply inp action) = (Some transfers, out)
        \<longrightarrow> length transfers \<le> 10)
     \<and> (\<forall>logs out.
        fetch_aave_supply_logs (aave_reply inp) = (Some logs, out) \<longrightarrow> length logs \<le> 1000)"

text \<open>An alert ends with the sound being played: the alerts of a round are counted by
  its \<open>Play\<close> effects.\<close>

fun is_play :: "effect \<Rightarrow> bool" where
  "is_play (Play s) = True"
| "is_play (Print s) = False"

section \<open>Example inputs\<close>

text \<open>An address and four transfers of a native-value window, used to instantiate the
  theorems: one paid in, one that errored, one of value zero, one to another address.\<close>

definition example_address :: string where
  "example_address = ''0xAbCdEf0123456789aBcDeF0123456789abcdef01''"

definition paid :: pydict where
  "paid = [''hash'' \<mapsto> ''0xa1'', ''to'' \<mapsto> ''0xabcdef0123456789abcdef0123456789abcdef01'',
           ''from'' \<mapsto> ''0x1111111111111111111111111111111111111111'',
           ''value'' \<mapsto> ''1500000000000000000'', ''isError'' \<mapsto> ''0'']"

definition errored :: pydict where
  "errored = [''hash'' \<mapsto> ''0xa2'', ''to'' \<mapsto> ''0xabcdef0123456789abcdef0123456789abcdef01'',
              ''value'' \<mapsto> ''7'', ''isError'' \<mapsto> ''1'']"

definition worthless :: pydict where
  "worthless = [''hash'' \<mapsto> ''0xa3'', ''to'' \<mapsto> ''0xABCDEF0123456789ABCDEF0123456789ABCDEF01'',
                ''value'' \<mapsto> ''0'', ''isError'' \<mapsto> ''0'']"

definition elsewhere :: pydict where
  "elsewhere = [''hash'' \<mapsto> ''0xa4'', ''to'' \<mapsto> ''0x2222222222222222222222222222222222222222'',
                ''value'' \<mapsto> ''5'', ''isError'' \<mapsto> ''0'']"

definition paid_later :: pydict where
  "paid_later = [''hash'' \<mapsto> ''0xa0'', ''to'' \<mapsto> ''0xabcdef0123456789abcdef0123456789abcdef01'',
                 ''from'' \<mapsto> ''0x3333333333333333333333333333333333333333'',
                 ''value'' \<mapsto> ''1000000000000000000'', ''isError'' \<mapsto> ''0'']"

text \<open>A successful reply with the given records, and the reply that nothing was found.\<close>

definition ok_reply :: "pydict list \<Rightarrow> pydict list response" where
  "ok_reply records = Body (Some ''1'') (Some ''OK'') (Some records)"

definition nothing_found :: "pydict list response" where
  "nothing_found = Body (Some ''0'') (Some ''No transactions found'') (Some [])"

text \<open>A Supply event log of one WETH at block 16.\<close>

definition supply_log :: pydict where
  "supply_log =
     [''transactionHash'' \<mapsto> ''0xb1'', ''blockNumber'' \<mapsto> ''0x10'',
      ''data'' \<mapsto> ''0x000000000000000000000000a1b2c3d4e5f60718293a4b5c6d7e8f9012345678''
                  @ ''0000000000000000000000000000000000000000000000000de0b6b3a7640000'']"

text \<open>A round in which every transfer query finds nothing and the log query gets the
  given reply.\<close>

definition quiet_round :: "pydict list response \<Rightarrow> round_input" where
  "quiet_round r = \<lparr>transfer_reply = (\<lambda>action. nothing_found), aave_reply = r,
                    tx_sender = Map.empty\<rparr>"

text \<open>A transfer to the monitored address whose value is not a decimal numeral, and a
  round in which every transfer query returns it.\<close>

definition malformed :: pydict where
  "malformed = [''hash'' \<mapsto> ''0xa5'', ''to'' \<mapsto> ''0xabcdef0123456789abcdef0123456789abcdef01'',
                ''value'' \<mapsto> ''0x10'', ''isError'' \<mapsto> ''0'']"

definition malformed_round :: round_input where
  "malformed_round = \<lparr>transfer_reply = (\<lambda>action. ok_reply [malformed]),
                       aave_reply = nothing_found, tx_sender = Map.empty\<rparr>"

text \<open>A log with a short payload, and a window of 1000 other logs of the same block,
  all of different transactions.\<close>

definition old_log :: pydict where
  "old_log = [''transactionHash'' \<mapsto> ''0xc0'', ''blockNumber'' \<mapsto> ''0x10'']"

definition batch_log :: "nat \<Rightarrow> pydict" where
  "batch_log i = [''transactionHash'' \<mapsto> ''0xd'' @ replicate i CHR ''0'',
                  ''blockNumber'' \<mapsto> ''0x10'']"

definition batch :: "pydict list" where
  "batch = map batch_log [0..<1000]"

section \<open>Basic facts\<close>

lemma bind_Inr [simp]: "bind (Inr x) f = f x"
  by (simp add: bind_def)

lemma bind_Inl [simp]: "bind (Inl e) f = Inl e"
  by (simp add: bind_def)

lemma bind_eq_Inr: "bind m f = Inr y \<longleftrightarrow> (\<exists>x. m = Inr x \<and> f x = Inr y)"
  by (cases m) simp_all

lemma format_token_amount_zero: "format_token_amount (str_int 0) (PStr ''18'') = Inr ''0''"
  by code_simp

lemma py_int_0x0: "py_int 16 ''0x0'' = Inr 0"
  by code_simp

subsection \<open>New records of a window\<close>

lemma new_records_Nil [simp]: "new_records f [] S = []"
  by (simp add: new_records_def)

lemma new_records_Cons [simp]:
  "new_records f (x # xs) S =
     (if f x |\<notin>| S then x # new_records f xs (finsert (f x) S) else new_records f xs S)"
proof -
  have "[0..<Suc (length xs)] = 0 # map Suc [0..<length xs]"
    by (simp only: map_Suc_upt upt_conv_Cons [OF zero_less_Suc])
  then have upt: "[0..<length (x # xs)] = 0 # map Suc [0..<length xs]"
    by simp
  show ?thesis
  proof (cases "f x |\<notin>| S")
    case True
    then show ?thesis
      unfolding new_records_def upt
      by (auto simp: filter_map o_def intro!: arg_cong [where f = "map ((!) xs)"] filter_cong)
  next
    case False
    then show ?thesis
      unfolding new_records_def upt
      by (auto simp: filter_map o_def intro!: arg_cong [where f = "map ((!) xs)"] filter_cong)
  qed
qed

lemma set_new_records: "f ` set (new_records f xs S) = f ` set xs - fset S"
  by (induction xs arbitrary: S) auto

lemma new_records_unseen: "x \<in> set (new_records f xs S) \<Longrightarrow> f x |\<notin>| S"
  using set_new_records [of f xs S] by blast

lemma distinct_new_records: "distinct (map f (new_records f xs S))"
proof (induction xs arbitrary: S)
  case Nil
  then show ?case by simp
next
  case (Cons x xs)
  have "f x \<notin> f ` set (new_records f xs (finsert (f x) S))"
    by (simp add: set_new_records)
  with Cons show ?case by simp
qed

lemma length_new_records: "length (new_records f xs S) = fcard (idents f xs |-| S)"
proof -
  have "length (new_records f xs S) = card (f ` set (new_records f xs S))"
    using distinct_new_records [of f xs S]
    by (metis distinct_card length_map list.set_map)
  also have "\<dots> = card (f ` set xs - fset S)"
    by (simp add: set_new_records)
  also have "\<dots> = fcard (idents f xs |-| S)"
    by (simp add: fcard.rep_eq idents_def fset_of_list.rep_eq)
  finally show ?thesis .
qed

subsection \<open>The filter of the native-value category\<close>

lemma py_int_zero: "py_int 10 ''0'' = Inr 0"
  by code_simp

lemma eth_only_Inr:
  "eth_only txs = Inr r \<Longrightarrow>
   r = filter (\<lambda>tx. tx ''isError'' \<noteq> Some ''1''
          \<and> (\<exists>v. py_int 10 (get tx ''value'' ''0'') = Inr v \<and> v > 0)) txs"
proof (induction txs arbitrary: r)
  case Nil
  then show ?case by simp
next
  case (Cons tx txs)
  show ?case
  proof (cases "tx ''isError'' \<noteq> Some ''1''")
    case True
    with Cons.prems obtain v r' where v: "py_int 10 (get tx ''value'' ''0'') = Inr v"
      and r': "eth_only txs = Inr r'" and r: "r = (if v > 0 then tx # r' else r')"
      by (auto simp: bind_eq_Inr)
    from Cons.IH [OF r'] v r True show ?thesis by auto
  next
    case False
    with Cons show ?thesis by simp
  qed
qed

lemma eth_only_total:
  "\<forall>tx \<in> set txs. tx ''isError'' \<noteq> Some ''1'' \<longrightarrow> (\<exists>v. py_int 10 (get tx ''value'' ''0'') = Inr v)
   \<Longrightarrow> \<exists>r. eth_only txs = Inr r"
  by (induction txs) auto

subsection \<open>The example window\<close>

lemma example_recipients:
  "lower (get paid ''to'' []) = lower example_address"
  "lower (get errored ''to'' []) = lower example_address"
  "lower (get worthless ''to'' []) = lower example_address"
  "lower (get elsewhere ''to'' []) \<noteq> lower example_address"
  by code_simp+

lemma example_values:
  "py_int 10 (get paid ''value'' ''0'') = Inr 1500000000000000000"
  "py_int 10 (get worthless ''value'' ''0'') = Inr 0"
  "py_int 10 (get elsewhere ''value'' ''0'') = Inr 5"
  "paid ''isError'' \<noteq> Some ''1''" "errored ''isError'' = Some ''1''"
  "worthless ''isError'' \<noteq> Some ''1''"
  by code_simp+

subsection \<open>Actions\<close>

lemma io_bind_Inr [simp]: "io_bind (out, Inr x) f = (out @ fst (f x), snd (f x))"
  by (simp add: io_bind_def split: prod.splits)

lemma io_bind_Inl [simp]: "io_bind (out, Inl e) f = (out, Inl e)"
  by (simp add: io_bind_def)

lemma io_bind_lift_Inr [simp]: "io_bind (lift (Inr x)) f = f x"
  by (simp add: lift_def)

lemma io_bind_lift_Inl [simp]: "io_bind (lift (Inl e)) f = ([], Inl e)"
  by (simp add: lift_def)

lemma io_bind_emit [simp]: "io_bind (emit out) f = (out @ fst (f ()), snd (f ()))"
  by (simp add: emit_def)

lemma fst_io_bind:
  "fst (io_bind m f) = fst m @ (case snd m of Inl e \<Rightarrow> [] | Inr x \<Rightarrow> fst (f x))"
  by (cases m; cases "snd m") auto

lemma snd_io_bind:
  "snd (io_bind m f) = (case snd m of Inl e \<Rightarrow> Inl e | Inr x \<Rightarrow> snd (f x))"
  by (cases m; cases "snd m") auto

lemma snd_io_bind_Inr:
  "snd (io_bind m f) = Inr y \<longleftrightarrow> (\<exists>x. snd m = Inr x \<and> snd (f x) = Inr y)"
  by (cases m; cases "snd m") auto

subsection \<open>The queries\<close>

lemma fetch_transfers_Some: "fetch_transfers action resp = (Some ts, out) \<Longrightarrow> out = []"
  by (auto simp: fetch_transfers_def split: response.splits if_splits)

lemma fetch_aave_supply_logs_Some: "fetch_aave_supply_logs resp = (Some ts, out) \<Longrightarrow> out = []"
  by (auto simp: fetch_aave_supply_logs_def Let_def split: response.splits if_splits)

lemma fetch_transfers_None:
  "fetch_transfers action resp = (None, out) \<Longrightarrow> \<exists>line. out = [Print line]"
  by (auto simp: fetch_transfers_def split: response.splits if_splits)

lemma fetch_aave_supply_logs_None:
  "fetch_aave_supply_logs resp = (None, out) \<Longrightarrow> \<exists>line. out = [Print line]"
  by (auto simp: fetch_aave_supply_logs_def Let_def split: response.splits if_splits)

subsection \<open>The loops of a transfer channel\<close>

lemma subscript_hash: "tx ''hash'' \<noteq> None \<Longrightarrow> subscript tx ''hash'' = Inr (ident tx)"
  by (auto simp: subscript_def ident_def get_def)

lemma subscript_Inr: "subscript tx k = Inr h \<Longrightarrow> tx k = Some h"
  by (auto simp: subscript_def split: option.splits)

lemma idents_Nil [simp]: "idents f [] = {||}"
  by (simp add: idents_def)

lemma idents_Cons [simp]: "idents f (x # xs) = finsert (f x) (idents f xs)"
  by (simp add: idents_def)

lemma idents_member: "h |\<in>| idents f xs \<longleftrightarrow> h \<in> f ` set xs"
  by (simp add: idents_def fset_of_list.rep_eq)

lemma fcard_idents_le: "fcard (idents f xs) \<le> length xs"
proof -
  have "fcard (idents f xs) = card (f ` set xs)"
    by (simp add: idents_def fcard.rep_eq fset_of_list.rep_eq)
  also have "\<dots> \<le> card (set xs)"
    by (simp add: card_image_le)
  also have "\<dots> \<le> length xs"
    by (rule card_length)
  finally show ?thesis .
qed

lemma seed_spec:
  "\<forall>tx \<in> set txs. tx ''hash'' \<noteq> None \<Longrightarrow> seed txs S = Inr (S |\<union>| idents ident txs)"
  by (induction txs arbitrary: S) (auto simp: subscript_hash)

lemma seed_Inr: "seed txs S = Inr S' \<Longrightarrow> \<forall>tx \<in> set txs. tx ''hash'' \<noteq> None"
  by (induction txs arbitrary: S) (auto simp: bind_eq_Inr dest: subscript_Inr)

lemma collect_new_spec:
  "\<forall>tx \<in> set txs. tx ''hash'' \<noteq> None \<Longrightarrow>
   collect_new txs acc S = Inr (acc @ new_records ident txs S, S |\<union>| idents ident txs)"
proof (induction txs arbitrary: acc S)
  case Nil
  then show ?case by simp
next
  case (Cons tx txs)
  then have h: "subscript tx ''hash'' = Inr (ident tx)"
    and rest: "\<forall>tx \<in> set txs. tx ''hash'' \<noteq> None"
    by (simp_all add: subscript_hash)
  show ?case
  proof (cases "ident tx |\<in>| S")
    case True
    then have "finsert (ident tx) (S |\<union>| idents ident txs) = S |\<union>| idents ident txs"
      by auto
    with True h Cons.IH [OF rest] show ?thesis by simp
  next
    case False
    with h Cons.IH [OF rest] show ?thesis by simp
  qed
qed

lemma collect_new_Inr: "collect_new txs acc S = Inr r \<Longrightarrow> \<forall>tx \<in> set txs. tx ''hash'' \<noteq> None"
  by (induction txs arbitrary: acc S)
     (auto simp: bind_eq_Inr dest: subscript_Inr split: if_splits)

lemma hash_set_spec:
  "\<forall>tx \<in> set txs. tx ''hash'' \<noteq> None \<Longrightarrow> hash_set txs = Inr (idents ident txs)"
  by (induction txs) (auto simp: subscript_hash)

lemma alert_transfers_spec:
  "\<forall>tx \<in> set txs. snd (print_transfer tx ty) = Inr () \<Longrightarrow>
   alert_transfers txs ty sound =
     (concat (map (\<lambda>tx. fst (print_transfer tx ty) @ [Play sound]) txs), Inr ())"
proof (induction txs)
  case Nil
  then show ?case by (simp add: emit_def)
next
  case (Cons tx txs)
  then have "print_transfer tx ty = (fst (print_transfer tx ty), Inr ())"
    by (metis list.set_intros(1) prod.collapse)
  then have "alert_transfers (tx # txs) ty sound =
      io_bind (fst (print_transfer tx ty), Inr ()) (\<lambda>_.
        io_bind (emit [Play sound]) (\<lambda>_. alert_transfers txs ty sound))"
    by simp
  with Cons show ?case by simp
qed

lemma alert_transfers_effects:
  "set (fst (alert_transfers txs ty sound))
     \<subseteq> (\<Union>tx \<in> set txs. set (fst (print_transfer tx ty))) \<union> {Play sound}"
proof (induction txs)
  case Nil
  then show ?case by (simp add: emit_def)
next
  case (Cons tx txs)
  then show ?case
    by (cases "print_transfer tx ty"; cases "snd (print_transfer tx ty)") auto
qed

subsection \<open>What an alert prints\<close>

lemma rule60_Cons: "rule60 = CHR ''='' # replicate 59 CHR ''=''"
  by (simp add: rule60_def numeral_eq_Suc)

lemma print_transfer_no_play: "Play s \<notin> set (fst (print_transfer tx ty))"
  by (auto simp: print_transfer_def Let_def fst_io_bind emit_def lift_def
      split: sum.splits)

lemma print_transfer_tx_line:
  "Print (''  Tx:     '' @ h) \<in> set (fst (print_transfer tx ty)) \<Longrightarrow> h = ident tx"
  by (auto simp: print_transfer_def Let_def fst_io_bind emit_def lift_def ident_def rule60_Cons
      split: sum.splits if_splits)

lemma print_transfer_NFT: "snd (print_transfer tx ''NFT'') = Inr ()"
  by (simp add: print_transfer_def Let_def emit_def)

lemma print_transfer_ETH:
  "format_token_amount (get tx ''value'' ''0'') (PStr ''18'') = Inr a
   \<Longrightarrow> snd (print_transfer tx ''ETH'') = Inr ()"
  by (simp add: print_transfer_def Let_def emit_def)

subsection \<open>A round of a transfer channel\<close>

lemma transfer_round_skipped:
  "fetch_transfers action resp = (None, out) \<Longrightarrow>
   transfer_round address first (ty, action, sound) resp S = (out, Inr S)"
  by (simp add: transfer_round_def)

lemma transfer_round_seeding:
  assumes "fetch_transfers action resp = (Some transfers, out)"
    and "filter_incoming transfers address ty = Inr incoming"
    and "\<forall>tx \<in> set incoming. tx ''hash'' \<noteq> None"
  shows "transfer_round address True (ty, action, sound) resp S =
     ([], Inr (if fcard (S |\<union>| idents ident incoming) > MAX_SEEN_HASHES
               then idents ident incoming else S |\<union>| idents ident incoming))"
  using assms fetch_transfers_Some [OF assms(1)]
  by (simp add: transfer_round_def seed_spec hash_set_spec lift_def)

lemma transfer_round_steady:
  assumes "fetch_transfers action resp = (Some transfers, out)"
    and "filter_incoming transfers address ty = Inr incoming"
    and "\<forall>tx \<in> set incoming. tx ''hash'' \<noteq> None"
    and "\<forall>tx \<in> set (new_records ident incoming S). snd (print_transfer tx ty) = Inr ()"
  shows "transfer_round address False (ty, action, sound) resp S =
     (concat (map (\<lambda>tx. fst (print_transfer tx ty) @ [Play sound])
                (rev (new_records ident incoming S))),
      Inr (if fcard (S |\<union>| idents ident incoming) > MAX_SEEN_HASHES
           then idents ident incoming else S |\<union>| idents ident incoming))"
proof -
  have "\<forall>tx \<in> set (rev (new_records ident incoming S)). snd (print_transfer tx ty) = Inr ()"
    using assms(4) by simp
  from alert_transfers_spec [OF this, of sound] assms(1-3) fetch_transfers_Some [OF assms(1)]
  show ?thesis
    by (simp add: transfer_round_def collect_new_spec hash_set_spec lift_def)
qed

text \<open>Whatever a round of a transfer channel emits, and whether it returns or raises.\<close>

lemma transfer_round_effects:
  assumes "fetch_transfers action resp = (Some transfers, out)"
    and "filter_incoming transfers address ty = Inr incoming"
  shows "set (fst (transfer_round address first (ty, action, sound) resp S))
     \<subseteq> (if first then {}
         else (\<Union>tx \<in> set (new_records ident incoming S). set (fst (print_transfer tx ty)))
              \<union> {Play sound})"
proof (cases first)
  case True
  with assms fetch_transfers_Some [OF assms(1)] show ?thesis
    by (cases "seed incoming S") (auto simp: transfer_round_def lift_def)
next
  case False
  show ?thesis
  proof (cases "collect_new incoming [] S")
    case (Inl e)
    with False assms fetch_transfers_Some [OF assms(1)] show ?thesis
      by (simp add: transfer_round_def lift_def)
  next
    case (Inr r)
    from collect_new_Inr [OF Inr] have "\<forall>tx \<in> set incoming. tx ''hash'' \<noteq> None" .
    from collect_new_spec [OF this, of "[]" S] Inr
    have r: "r = (new_records ident incoming S, S |\<union>| idents ident incoming)"
      by simp
    have "set (fst (alert_transfers (rev (new_records ident incoming S)) ty sound))
        \<subseteq> (\<Union>tx \<in> set (new_records ident incoming S). set (fst (print_transfer tx ty)))
          \<union> {Play sound}"
      using alert_transfers_effects [of "rev (new_records ident incoming S)" ty sound] by simp
    with False assms fetch_transfers_Some [OF assms(1)] Inr r show ?thesis
      by (auto simp: transfer_round_def lift_def fst_io_bind split: sum.splits)
  qed
qed

subsection \<open>The loops of the protocol channel\<close>

lemma log_ident_eq: "(\<lambda>log. get log ''transactionHash'' []) = log_ident"
  by (rule ext) (simp add: log_ident_def)

lemma aave_seed_spec: "aave_seed logs S = S |\<union>| idents log_ident logs"
  unfolding aave_seed_def
  by (induction logs arbitrary: S) (auto simp: log_ident_def)

lemma aave_collect_new_spec:
  "aave_collect_new logs acc S =
     (acc @ new_records log_ident logs (finsert [] S),
      S |\<union>| (idents log_ident logs |-| {|[]|}))"
proof (induction logs arbitrary: acc S)
  case Nil
  then show ?case by simp
next
  case (Cons log logs)
  show ?case
  proof (cases "log_ident log \<noteq> [] \<and> log_ident log |\<notin>| S")
    case True
    then have "finsert (log_ident log) (finsert [] S) = finsert [] (finsert (log_ident log) S)"
      by auto
    with True Cons.IH [of "acc @ [log]" "finsert (log_ident log) S"] show ?thesis
      by (auto simp: log_ident_def [symmetric] Let_def)
  next
    case False
    with Cons.IH [of acc S] show ?thesis
      by (auto simp: log_ident_def [symmetric] Let_def)
  qed
qed

lemma decode_supply_event_tx_hash:
  "decode_supply_event log lookup = Inr ev \<Longrightarrow> tx_hash ev = log_ident log"
  by (auto simp: decode_supply_event_def Let_def bind_eq_Inr log_ident_def)

lemma print_supply_event_no_play: "Play s \<notin> set (print_supply_event ev)"
  by (auto simp: print_supply_event_def split: option.splits)

lemma print_supply_event_tx_line:
  "Print (''  Tx:     '' @ h) \<in> set (print_supply_event ev) \<Longrightarrow> h = tx_hash ev"
  by (auto simp: print_supply_event_def rule60_Cons split: option.splits if_splits)

lemma alert_events_spec:
  "\<forall>log \<in> set logs. \<exists>ev. decode_supply_event log lookup = Inr ev \<Longrightarrow>
   alert_events logs lookup =
     (concat (map (\<lambda>log. print_supply_event (projr (decode_supply_event log lookup))
                          @ [Play AAVE_SOUND]) logs), Inr ())"
proof (induction logs)
  case Nil
  then show ?case by (simp add: emit_def)
next
  case (Cons log logs)
  then obtain ev where "decode_supply_event log lookup = Inr ev"
    by auto
  with Cons show ?case by simp
qed

lemma alert_events_effects:
  "e \<in> set (fst (alert_events logs lookup)) \<Longrightarrow>
   e = Play AAVE_SOUND
   \<or> (\<exists>log \<in> set logs. \<exists>ev. decode_supply_event log lookup = Inr ev
         \<and> e \<in> set (print_supply_event ev))"
proof (induction logs)
  case Nil
  then show ?case by (simp add: emit_def)
next
  case (Cons log logs)
  then show ?case
    by (cases "decode_supply_event log lookup") auto
qed

lemma advance_spec:
  "\<forall>log \<in> set logs. \<exists>b. py_int 16 (get log ''blockNumber'' ''0x0'') = Inr b \<Longrightarrow>
   advance logs from_block = Inr (fold max (map block_num logs) from_block)"
proof (induction logs arbitrary: from_block)
  case Nil
  then show ?case by simp
next
  case (Cons log logs)
  then obtain b where b: "py_int 16 (get log ''blockNumber'' ''0x0'') = Inr b"
    by auto
  then have "block_num log = b"
    by (simp add: block_num_def)
  moreover have "(if b > from_block then b else from_block) = max b from_block"
    by simp
  ultimately show ?case
    using b Cons by simp
qed

lemma advance_Inr:
  "advance logs from_block = Inr from_block' \<Longrightarrow>
   \<forall>log \<in> set logs. \<exists>b. py_int 16 (get log ''blockNumber'' ''0x0'') = Inr b"
  by (induction logs arbitrary: from_block) (auto simp: bind_eq_Inr)

lemma fold_max_Max: "fold max xs (x::int) = Max (insert x (set xs))"
  using Max.set_eq_fold [of x xs] by simp

lemma fold_max_ge: "(x::int) \<le> fold max xs x"
  by (simp add: fold_max_Max)

subsection \<open>A round of the protocol channel\<close>

lemma aave_round_skipped:
  "fetch_aave_supply_logs resp = (None, out) \<Longrightarrow>
   aave_round first resp lookup (S, from_block) = (out, Inr (S, from_block))"
  by (simp add: aave_round_def)

lemma aave_round_seeding:
  assumes "fetch_aave_supply_logs resp = (Some logs, out)"
    and "\<forall>log \<in> set logs. \<exists>b. py_int 16 (get log ''blockNumber'' ''0x0'') = Inr b"
  shows "aave_round True resp lookup (S, from_block) =
     ([], Inr (if fcard (S |\<union>| idents log_ident logs) > MAX_SEEN_HASHES
               then idents log_ident logs else S |\<union>| idents log_ident logs,
               fold max (map block_num logs) from_block))"
  using assms fetch_aave_supply_logs_Some [OF assms(1)]
  by (simp add: aave_round_def aave_seed_spec advance_spec lift_def idents_def log_ident_eq)

lemma aave_round_steady:
  assumes "fetch_aave_supply_logs resp = (Some logs, out)"
    and "\<forall>log \<in> set logs. \<exists>b. py_int 16 (get log ''blockNumber'' ''0x0'') = Inr b"
    and "\<forall>log \<in> set (new_records log_ident logs (finsert [] S)).
           \<exists>ev. decode_supply_event log lookup = Inr ev"
  shows "aave_round False resp lookup (S, from_block) =
     (concat (map (\<lambda>log. print_supply_event (projr (decode_supply_event log lookup))
                          @ [Play AAVE_SOUND])
                (new_records log_ident logs (finsert [] S))),
      Inr (if fcard (S |\<union>| (idents log_ident logs |-| {|[]|})) > MAX_SEEN_HASHES
           then idents log_ident logs else S |\<union>| (idents log_ident logs |-| {|[]|}),
           fold max (map block_num logs) from_block))"
  using assms fetch_aave_supply_logs_Some [OF assms(1)] alert_events_spec [OF assms(3)]
  by (simp add: aave_round_def aave_collect_new_spec advance_spec lift_def idents_def
      log_ident_eq)

lemma aave_round_effects:
  assumes "fetch_aave_supply_logs resp = (Some logs, out)"
    and "e \<in> set (fst (aave_round first resp lookup (S, from_block)))"
  shows "\<not> first \<and> (e = Play AAVE_SOUND
     \<or> (\<exists>log \<in> set (new_records log_ident logs (finsert [] S)).
           \<exists>ev. decode_supply_event log lookup = Inr ev \<and> e \<in> set (print_supply_event ev)))"
proof -
  from assms fetch_aave_supply_logs_Some [OF assms(1)]
  have "\<not> first \<and> e \<in> set (fst (alert_events (new_records log_ident logs (finsert [] S)) lookup))"
    by (auto simp: aave_round_def aave_collect_new_spec lift_def fst_io_bind
        split: sum.splits if_splits)
  with alert_events_effects [of e "new_records log_ident logs (finsert [] S)" lookup]
  show ?thesis
    by blast
qed

lemma aave_round_Inr:
  assumes "fetch_aave_supply_logs resp = (Some logs, out)"
    and "snd (aave_round first resp lookup (S, from_block)) = Inr (S', from_block')"
  shows "from_block' = fold max (map block_num logs) from_block
     \<and> S' = (let S1 = (if first then S |\<union>| idents log_ident logs
                         else S |\<union>| (idents log_ident logs |-| {|[]|}))
             in if fcard S1 > MAX_SEEN_HASHES then idents log_ident logs else S1)"
proof -
  from assms obtain fb where "advance logs from_block = Inr fb"
    by (auto simp: aave_round_def aave_collect_new_spec lift_def snd_io_bind
        split: sum.splits if_splits)
  from advance_Inr [OF this] advance_spec [of logs from_block] assms
  show ?thesis
    by (auto simp: aave_round_def aave_collect_new_spec aave_seed_spec lift_def snd_io_bind
        idents_def log_ident_eq split: sum.splits if_splits)
qed

subsection \<open>More of the example window\<close>

lemma example_window_more:
  "lower (get paid_later ''to'' []) = lower example_address"
  "py_int 10 (get paid_later ''value'' ''0'') = Inr 1000000000000000000"
  "paid_later ''isError'' \<noteq> Some ''1''"
  by code_simp+

lemma example_filtered:
  "filter_incoming [paid_later, paid, errored, worthless, elsewhere] example_address ''ETH''
     = Inr [paid_later, paid]"
  using example_recipients example_values example_window_more
  by (simp add: filter_incoming_def)

lemma example_hashes:
  "paid ''hash'' = Some ''0xa1''" "paid_later ''hash'' = Some ''0xa0''"
  "ident paid = ''0xa1''" "ident paid_later = ''0xa0''"
  by (simp_all add: paid_def paid_later_def ident_def get_def)

lemma example_fetch: "fetch_transfers action (ok_reply records) = (Some records, [])"
  by (simp add: fetch_transfers_def ok_reply_def)

lemma example_fetch_logs: "fetch_aave_supply_logs (ok_reply records) = (Some records, [])"
  by (simp add: fetch_aave_supply_logs_def ok_reply_def)

lemma example_printable:
  "snd (print_transfer paid ''ETH'') = Inr ()" "snd (print_transfer paid_later ''ETH'') = Inr ()"
proof -
  have "format_token_amount (get paid ''value'' ''0'') (PStr ''18'') = Inr ''1.5''"
    "format_token_amount (get paid_later ''value'' ''0'') (PStr ''18'') = Inr ''1''"
    by code_simp+
  then show "snd (print_transfer paid ''ETH'') = Inr ()"
    "snd (print_transfer paid_later ''ETH'') = Inr ()"
    by (simp_all add: print_transfer_ETH)
qed

lemma example_log_facts:
  "py_int 16 (get supply_log ''blockNumber'' ''0x0'') = Inr 16"
  "log_ident supply_log = ''0xb1''"
  by code_simp+

lemma count_plays:
  "\<forall>x \<in> set xs. \<forall>e \<in> set (f x). \<not> is_play e \<Longrightarrow>
   length (filter is_play (concat (map (\<lambda>x. f x @ [Play s]) xs))) = length xs"
  by (induction xs) auto

lemma print_transfer_not_play: "e \<in> set (fst (print_transfer tx ty)) \<Longrightarrow> \<not> is_play e"
  using print_transfer_no_play [of _ tx ty] by (cases e) auto

subsection \<open>A round of the loop\<close>

lemma filter_incoming_Nil [simp]: "filter_incoming [] address ty = Inr []"
  by (simp add: filter_incoming_def)

lemma transfer_round_empty:
  assumes "fetch_transfers action resp = (Some [], out)"
  shows "transfer_round address first (ty, action, sound) resp S =
     ([], Inr (if fcard S > MAX_SEEN_HASHES then {||} else S))"
proof (cases first)
  case True
  with transfer_round_seeding [OF assms, of address ty "[]" sound S] show ?thesis
    by simp
next
  case False
  with transfer_round_steady [OF assms, of address ty "[]" S sound] show ?thesis
    by simp
qed

lemma monitor_round_Inr:
  assumes "snd (monitor_round address watch_aave s inp) = Inr s'"
  shows "\<exists>sn A fb.
     snd (transfer_rounds address (first_run s) TRANSFER_TYPES (transfer_reply inp) (seen s))
       = Inr sn
     \<and> (if watch_aave
         then snd (aave_round (first_run s) (aave_reply inp) (tx_sender inp)
                     (aave_seen s, aave_from_block s)) = Inr (A, fb)
         else A = aave_seen s \<and> fb = aave_from_block s)
     \<and> s' = \<lparr>seen = sn, first_run = False, aave_seen = A, aave_from_block = fb\<rparr>"
  using assms
  by (auto simp: monitor_round_def snd_io_bind_Inr lift_def split: if_splits)

lemma aave_round_cursor:
  assumes "snd (aave_round first resp lookup (S, from_block)) = Inr (S', from_block')"
  shows "from_block \<le> from_block'
     \<and> (\<forall>logs out. fetch_aave_supply_logs resp = (Some logs, out)
          \<longrightarrow> from_block' = Max (insert from_block (block_num ` set logs)))
     \<and> (fst (fetch_aave_supply_logs resp) = None \<or> fst (fetch_aave_supply_logs resp) = Some []
          \<longrightarrow> from_block' = from_block)"
proof (cases "fetch_aave_supply_logs resp")
  case (Pair r out)
  show ?thesis
  proof (cases r)
    case None
    with Pair assms show ?thesis
      by (simp add: aave_round_def)
  next
    case (Some logs)
    with Pair have f: "fetch_aave_supply_logs resp = (Some logs, out)"
      by simp
    from aave_round_Inr [OF f assms]
    have "from_block' = fold max (map block_num logs) from_block"
      by simp
    then have "from_block' = Max (insert from_block (block_num ` set logs))"
      by (simp add: fold_max_Max)
    with f show ?thesis
      by auto
  qed
qed

lemma monitor_round_cursor:
  assumes "snd (monitor_round address watch_aave s inp) = Inr s'"
  shows "aave_from_block s \<le> aave_from_block s'
     \<and> (watch_aave \<longrightarrow>
          (\<forall>logs out. fetch_aave_supply_logs (aave_reply inp) = (Some logs, out)
             \<longrightarrow> aave_from_block s' = Max (insert (aave_from_block s) (block_num ` set logs))))
     \<and> (\<not> watch_aave \<or> fst (fetch_aave_supply_logs (aave_reply inp)) = None
          \<or> fst (fetch_aave_supply_logs (aave_reply inp)) = Some []
          \<longrightarrow> aave_from_block s' = aave_from_block s)"
proof -
  from monitor_round_Inr [OF assms] obtain sn A fb where
    a: "if watch_aave
         then snd (aave_round (first_run s) (aave_reply inp) (tx_sender inp)
                     (aave_seen s, aave_from_block s)) = Inr (A, fb)
         else A = aave_seen s \<and> fb = aave_from_block s"
    and s': "s' = \<lparr>seen = sn, first_run = False, aave_seen = A, aave_from_block = fb\<rparr>"
    by blast
  show ?thesis
  proof (cases watch_aave)
    case True
    with a have "snd (aave_round (first_run s) (aave_reply inp) (tx_sender inp)
                     (aave_seen s, aave_from_block s)) = Inr (A, fb)"
      by simp
    from aave_round_cursor [OF this] s' True show ?thesis
      by simp
  next
    case False
    with a s' show ?thesis by simp
  qed
qed

lemma monitor_loop_cursor:
  "snd (monitor_loop address watch_aave s inps) = Inr s'
   \<Longrightarrow> aave_from_block s \<le> aave_from_block s'"
proof (induction inps arbitrary: s)
  case Nil
  then show ?case by (simp add: lift_def)
next
  case (Cons inp inps)
  then obtain s1 where r: "snd (monitor_round address watch_aave s inp) = Inr s1"
    and l: "snd (monitor_loop address watch_aave s1 inps) = Inr s'"
    by (auto simp: snd_io_bind_Inr)
  from monitor_round_cursor [OF r] Cons.IH [OF l] show ?case
    by simp
qed

subsection \<open>The quiet rounds\<close>

lemma nothing_found_fetch: "fetch_transfers action nothing_found = (Some [], [])"
  by (simp add: fetch_transfers_def nothing_found_def)

lemma quiet_transfer_rounds:
  assumes "\<forall>t. fcard (sn t) \<le> MAX_SEEN_HASHES"
  shows "transfer_rounds address first TRANSFER_TYPES (transfer_reply (quiet_round r)) sn
     = ([], Inr sn)"
proof -
  have "transfer_round address first (ty, action, sound) nothing_found (sn ty) = ([], Inr (sn ty))"
    for ty action sound
    using transfer_round_empty [OF nothing_found_fetch, of address first ty action sound "sn ty"]
      assms by (simp add: not_less [symmetric])
  then show ?thesis
    by (simp add: TRANSFER_TYPES_def quiet_round_def lift_def)
qed

lemma fcard_empty [simp]: "fcard {||} = 0"
  by (rule fcard_fempty)

lemma nothing_found_logs: "fetch_aave_supply_logs nothing_found = (Some [], [])"
  by (simp add: fetch_aave_supply_logs_def nothing_found_def)

lemma aave_round_empty:
  assumes "fetch_aave_supply_logs resp = (Some [], out)"
  shows "aave_round first resp lookup (S, from_block) =
     ([], Inr (if fcard S > MAX_SEEN_HASHES then {||} else S, from_block))"
proof (cases first)
  case True
  with aave_round_seeding [OF assms, of lookup S from_block] show ?thesis
    by simp
next
  case False
  with aave_round_steady [OF assms, of S lookup from_block] show ?thesis
    by simp
qed

lemma example_block: "block_num supply_log = 16"
  by (simp add: block_num_def example_log_facts)

lemma quiet_transfer_rounds_initial:
  "transfer_rounds address first TRANSFER_TYPES (transfer_reply (quiet_round r)) (\<lambda>t. {||})
     = ([], Inr (\<lambda>t. {||}))"
  by (rule quiet_transfer_rounds) simp

lemma example_first_round:
  "monitor_round example_address True (initial_state True (Some 210))
     (quiet_round (ok_reply [supply_log]))
   = ([], Inr ((initial_state True (Some 210))
               \<lparr>first_run := False, aave_seen := {|''0xb1''|}, aave_from_block := 16\<rparr>))"
proof -
  have "aave_round True (ok_reply [supply_log]) Map.empty ({||}, 10)
      = ([], Inr ({|''0xb1''|}, 16))"
    using aave_round_seeding [OF example_fetch_logs, of "[supply_log]" Map.empty "{||}" 10]
    by (simp add: example_log_facts example_block MAX_SEEN_HASHES_def fcard_finsert_if fcard_fempty)
  then show ?thesis
    by (simp add: monitor_round_def quiet_transfer_rounds_initial initial_state_def
        AAVE_LOOKBACK_BLOCKS_def quiet_round_def [of "ok_reply [supply_log]", THEN arg_cong [where f = aave_reply]]
        quiet_round_def [of "ok_reply [supply_log]", THEN arg_cong [where f = tx_sender]] lift_def)
qed

lemma example_second_round:
  "monitor_round example_address True
     ((initial_state True (Some 210))
       \<lparr>first_run := False, aave_seen := {|''0xb1''|}, aave_from_block := 16\<rparr>)
     (quiet_round nothing_found)
   = ([], Inr ((initial_state True (Some 210))
               \<lparr>first_run := False, aave_seen := {|''0xb1''|}, aave_from_block := 16\<rparr>))"
proof -
  have "aave_round False nothing_found Map.empty ({|''0xb1''|}, 16)
      = ([], Inr ({|''0xb1''|}, 16))"
    using aave_round_empty [OF nothing_found_logs, of False Map.empty "{|''0xb1''|}" 16]
    by (simp add: MAX_SEEN_HASHES_def fcard_finsert_if fcard_fempty)
  then show ?thesis
    by (simp add: monitor_round_def quiet_transfer_rounds_initial initial_state_def
        quiet_round_def [of nothing_found, THEN arg_cong [where f = aave_reply]]
        quiet_round_def [of nothing_found, THEN arg_cong [where f = tx_sender]] lift_def)
qed

subsection \<open>The bound on the Seen Sets\<close>

lemma transfer_round_Inr:
  assumes "fetch_transfers action resp = (Some transfers, out)"
    and "snd (transfer_round address first (ty, action, sound) resp S) = Inr S'"
  shows "\<exists>incoming. filter_incoming transfers address ty = Inr incoming
     \<and> (\<forall>tx \<in> set incoming. tx ''hash'' \<noteq> None)
     \<and> S' = (if fcard (S |\<union>| idents ident incoming) > MAX_SEEN_HASHES
             then idents ident incoming else S |\<union>| idents ident incoming)"
proof -
  from assms obtain incoming where f: "filter_incoming transfers address ty = Inr incoming"
    by (auto simp: transfer_round_def snd_io_bind_Inr lift_def)
  have h: "\<forall>tx \<in> set incoming. tx ''hash'' \<noteq> None"
  proof (cases first)
    case True
    with assms f obtain S1 where "seed incoming S = Inr S1"
      by (auto simp: transfer_round_def snd_io_bind_Inr lift_def)
    then show ?thesis by (rule seed_Inr)
  next
    case False
    with assms f obtain r where "collect_new incoming [] S = Inr r"
      by (auto simp: transfer_round_def snd_io_bind_Inr lift_def)
    then show ?thesis by (rule collect_new_Inr)
  qed
  have "S' = (if fcard (S |\<union>| idents ident incoming) > MAX_SEEN_HASHES
             then idents ident incoming else S |\<union>| idents ident incoming)"
  proof (cases first)
    case True
    with transfer_round_seeding [OF assms(1) f h, of sound S] assms(2) show ?thesis
      by simp
  next
    case False
    with assms f h show ?thesis
      by (auto simp: transfer_round_def snd_io_bind_Inr lift_def collect_new_spec hash_set_spec
          split: if_splits)
  qed
  with f h show ?thesis by blast
qed

lemma filter_incoming_length:
  "filter_incoming transfers address ty = Inr incoming \<Longrightarrow> length incoming \<le> length transfers"
proof -
  assume a: "filter_incoming transfers address ty = Inr incoming"
  let ?to_me = "filter (\<lambda>tx. lower (get tx ''to'' []) = lower address) transfers"
  have "length incoming \<le> length ?to_me"
  proof (cases "ty = ''ETH''")
    case True
    with a have "eth_only ?to_me = Inr incoming"
      by (simp add: filter_incoming_def)
    from eth_only_Inr [OF this] obtain P where "incoming = filter P ?to_me"
      by blast
    then have "length incoming = length (filter P ?to_me)"
      by (simp only:)
    also have "\<dots> \<le> length ?to_me"
      by (rule length_filter_le)
    finally show ?thesis .
  next
    case False
    with a show ?thesis by (auto simp: filter_incoming_def)
  qed
  also have "\<dots> \<le> length transfers"
    by simp
  finally show ?thesis .
qed

lemma reset_bounded:
  "fcard (idents f xs) \<le> MAX_SEEN_HASHES \<Longrightarrow>
   fcard (if fcard T > MAX_SEEN_HASHES then idents f xs else T) \<le> MAX_SEEN_HASHES"
  by simp

lemma transfer_round_bounded:
  assumes "snd (transfer_round address first (ty, action, sound) resp S) = Inr S'"
    and "fcard S \<le> MAX_SEEN_HASHES"
    and "\<forall>transfers out. fetch_transfers action resp = (Some transfers, out)
           \<longrightarrow> length transfers \<le> 10"
  shows "fcard S' \<le> MAX_SEEN_HASHES"
proof (cases "fetch_transfers action resp")
  case (Pair r out)
  show ?thesis
  proof (cases r)
    case None
    with Pair assms(1,2) show ?thesis
      by (simp add: transfer_round_def)
  next
    case (Some transfers)
    with Pair have f: "fetch_transfers action resp = (Some transfers, out)"
      by simp
    from transfer_round_Inr [OF f assms(1)] obtain incoming where
      i: "filter_incoming transfers address ty = Inr incoming"
      and S': "S' = (if fcard (S |\<union>| idents ident incoming) > MAX_SEEN_HASHES
             then idents ident incoming else S |\<union>| idents ident incoming)"
      by blast
    have "fcard (idents ident incoming) \<le> length incoming"
      by (rule fcard_idents_le)
    also have "\<dots> \<le> length transfers"
      using i by (rule filter_incoming_length)
    also have "\<dots> \<le> 10"
      using assms(3) f by blast
    finally have "fcard (idents ident incoming) \<le> MAX_SEEN_HASHES"
      by (simp add: MAX_SEEN_HASHES_def)
    with S' show ?thesis
      by (simp only: reset_bounded)
  qed
qed

lemma transfer_rounds_bounded:
  assumes "snd (transfer_rounds address first cfgs reply sn) = Inr sn'"
    and "\<forall>t. fcard (sn t) \<le> MAX_SEEN_HASHES"
    and "\<forall>action transfers out. fetch_transfers action (reply action) = (Some transfers, out)
           \<longrightarrow> length transfers \<le> 10"
  shows "\<forall>t. fcard (sn' t) \<le> MAX_SEEN_HASHES"
  using assms(1,2)
proof (induction cfgs arbitrary: sn)
  case Nil
  then show ?case by (simp add: lift_def)
next
  case (Cons cfg cfgs)
  obtain ty action sound where cfg: "cfg = (ty, action, sound)"
    by (cases cfg) auto
  from Cons.prems(1) cfg obtain S where
    r: "snd (transfer_round address first (ty, action, sound) (reply action) (sn ty)) = Inr S"
    and rest: "snd (transfer_rounds address first cfgs reply (sn(ty := S))) = Inr sn'"
    by (auto simp: snd_io_bind_Inr)
  have "fcard S \<le> MAX_SEEN_HASHES"
    using r Cons.prems(2) assms(3) by (intro transfer_round_bounded [OF r]) auto
  with Cons.prems(2) have "\<forall>t. fcard ((sn(ty := S)) t) \<le> MAX_SEEN_HASHES"
    by simp
  from Cons.IH [OF rest this] show ?case .
qed

lemma aave_round_bounded:
  assumes "snd (aave_round first resp lookup (S, from_block)) = Inr (S', from_block')"
    and "fcard S \<le> MAX_SEEN_HASHES"
    and "\<forall>logs out. fetch_aave_supply_logs resp = (Some logs, out) \<longrightarrow> length logs \<le> 1000"
  shows "fcard S' \<le> MAX_SEEN_HASHES"
proof (cases "fetch_aave_supply_logs resp")
  case (Pair r out)
  show ?thesis
  proof (cases r)
    case None
    with Pair assms(1,2) show ?thesis
      by (simp add: aave_round_def)
  next
    case (Some logs)
    with Pair have f: "fetch_aave_supply_logs resp = (Some logs, out)"
      by simp
    have "fcard (idents log_ident logs) \<le> length logs"
      by (rule fcard_idents_le)
    also have "\<dots> \<le> 1000"
      using assms(3) f by blast
    finally have b: "fcard (idents log_ident logs) \<le> MAX_SEEN_HASHES"
      by (simp add: MAX_SEEN_HASHES_def)
    from aave_round_Inr [OF f assms(1)] show ?thesis
      by (simp only: Let_def reset_bounded [OF b])
  qed
qed

lemma monitor_round_bounded:
  assumes "snd (monitor_round address watch_aave s inp) = Inr s'"
    and "\<forall>t. fcard (seen s t) \<le> MAX_SEEN_HASHES" and "fcard (aave_seen s) \<le> MAX_SEEN_HASHES"
    and "page_sized inp"
  shows "(\<forall>t. fcard (seen s' t) \<le> MAX_SEEN_HASHES) \<and> fcard (aave_seen s') \<le> MAX_SEEN_HASHES"
proof -
  from monitor_round_Inr [OF assms(1)] obtain sn A fb where
    t: "snd (transfer_rounds address (first_run s) TRANSFER_TYPES (transfer_reply inp) (seen s))
       = Inr sn"
    and a: "if watch_aave
         then snd (aave_round (first_run s) (aave_reply inp) (tx_sender inp)
                     (aave_seen s, aave_from_block s)) = Inr (A, fb)
         else A = aave_seen s \<and> fb = aave_from_block s"
    and s': "s' = \<lparr>seen = sn, first_run = False, aave_seen = A, aave_from_block = fb\<rparr>"
    by blast
  from assms(4) have p1: "\<forall>action transfers out.
      fetch_transfers action (transfer_reply inp action) = (Some transfers, out)
      \<longrightarrow> length transfers \<le> 10"
    and p2: "\<forall>logs out. fetch_aave_supply_logs (aave_reply inp) = (Some logs, out)
      \<longrightarrow> length logs \<le> 1000"
    by (auto simp: page_sized_def)
  from transfer_rounds_bounded [OF t assms(2) p1]
  have 1: "\<forall>t. fcard (sn t) \<le> MAX_SEEN_HASHES" .
  have 2: "fcard A \<le> MAX_SEEN_HASHES"
  proof (cases watch_aave)
    case True
    with a have "snd (aave_round (first_run s) (aave_reply inp) (tx_sender inp)
                     (aave_seen s, aave_from_block s)) = Inr (A, fb)"
      by simp
    from aave_round_bounded [OF this assms(3) p2] show ?thesis .
  next
    case False
    with a assms(3) show ?thesis by simp
  qed
  from 1 2 s' show ?thesis by simp
qed

lemma monitor_loop_bounded:
  assumes "snd (monitor_loop address watch_aave s inps) = Inr s'"
    and "\<forall>t. fcard (seen s t) \<le> MAX_SEEN_HASHES" and "fcard (aave_seen s) \<le> MAX_SEEN_HASHES"
    and "\<forall>inp \<in> set inps. page_sized inp"
  shows "(\<forall>t. fcard (seen s' t) \<le> MAX_SEEN_HASHES) \<and> fcard (aave_seen s') \<le> MAX_SEEN_HASHES"
  using assms
proof (induction inps arbitrary: s)
  case Nil
  then show ?case by (simp add: lift_def)
next
  case (Cons inp inps)
  from Cons.prems(1) obtain s1 where r: "snd (monitor_round address watch_aave s inp) = Inr s1"
    and l: "snd (monitor_loop address watch_aave s1 inps) = Inr s'"
    by (auto simp: snd_io_bind_Inr)
  from monitor_round_bounded [OF r Cons.prems(2,3)] Cons.prems(4)
  have "(\<forall>t. fcard (seen s1 t) \<le> MAX_SEEN_HASHES) \<and> fcard (aave_seen s1) \<le> MAX_SEEN_HASHES"
    by simp
  with Cons.IH [OF l] Cons.prems(4) show ?case by simp
qed

lemma initial_state_bounded:
  "(\<forall>t. fcard (seen (initial_state watch_aave block) t) \<le> MAX_SEEN_HASHES)
   \<and> fcard (aave_seen (initial_state watch_aave block)) \<le> MAX_SEEN_HASHES"
  by (simp add: initial_state_def)

lemma page_sized_quiet:
  "length logs \<le> 1000 \<Longrightarrow> page_sized (quiet_round (ok_reply logs))"
  "page_sized (quiet_round nothing_found)"
  by (simp_all add: page_sized_def quiet_round_def nothing_found_fetch example_fetch_logs
      nothing_found_logs)

lemma example_two_rounds:
  "monitor_loop example_address True (initial_state True (Some 210))
     [quiet_round (ok_reply [supply_log]), quiet_round nothing_found]
   = ([], Inr ((initial_state True (Some 210))
               \<lparr>first_run := False, aave_seen := {|''0xb1''|}, aave_from_block := 16\<rparr>))"
  by (simp add: example_first_round example_second_round lift_def)

lemma example_steady_round:
  "transfer_round example_address False (''ETH'', ''txlist'', ''Ping.aiff'')
     (ok_reply [paid_later, paid, errored, worthless, elsewhere]) {|''0xa7''|}
   = (fst (print_transfer paid ''ETH'') @ [Play ''Ping.aiff'']
      @ fst (print_transfer paid_later ''ETH'') @ [Play ''Ping.aiff''],
      Inr {|''0xa7'', ''0xa0'', ''0xa1''|})"
proof -
  have "fcard ({|''0xa7''|} |\<union>| idents ident [paid_later, paid]) \<le> MAX_SEEN_HASHES"
    by (simp add: example_hashes MAX_SEEN_HASHES_def fcard_finsert_if)
  then show ?thesis
    using transfer_round_steady [where action = "''txlist''" and S = "{|''0xa7''|}"
        and sound = "''Ping.aiff''", OF example_fetch example_filtered]
    by (auto simp: example_hashes example_printable not_less [symmetric])
qed

subsection \<open>The malformed window\<close>

lemma malformed_value: "py_int 10 (get malformed ''value'' ''0'') = Inl ValueError"
  "lower (get malformed ''to'' []) = lower example_address"
  "malformed ''isError'' \<noteq> Some ''1''"
  by code_simp+

lemma malformed_filter:
  "filter_incoming [malformed] example_address ''ETH'' = Inl ValueError"
  by (simp add: filter_incoming_def malformed_value)

subsection \<open>No alert for an identifier of the Seen Set\<close>

lemma fetch_transfers_no_tx_line:
  "Print (''  Tx:     '' @ h) \<notin> set (snd (fetch_transfers action resp))"
  by (auto simp: fetch_transfers_def split: response.splits if_splits)

lemma fetch_aave_supply_logs_no_tx_line:
  "Print (''  Tx:     '' @ h) \<notin> set (snd (fetch_aave_supply_logs resp))"
  by (auto simp: fetch_aave_supply_logs_def Let_def split: response.splits if_splits)

lemma transfer_round_seen_silent:
  assumes "h |\<in>| S"
  shows "Print (''  Tx:     '' @ h)
     \<notin> set (fst (transfer_round address first (ty, action, sound) resp S))"
proof (cases "fetch_transfers action resp")
  case (Pair r out)
  show ?thesis
  proof (cases r)
    case None
    with Pair fetch_transfers_no_tx_line [of h action resp] show ?thesis
      by (simp add: transfer_round_def)
  next
    case (Some transfers)
    with Pair have f: "fetch_transfers action resp = (Some transfers, out)"
      by simp
    show ?thesis
    proof (cases "filter_incoming transfers address ty")
      case (Inl e)
      with f fetch_transfers_Some [OF f] show ?thesis
        by (simp add: transfer_round_def lift_def)
    next
      case (Inr incoming)
      show ?thesis
      proof
        assume "Print (''  Tx:     '' @ h)
          \<in> set (fst (transfer_round address first (ty, action, sound) resp S))"
        with transfer_round_effects [OF f Inr, of first sound S]
        obtain tx where "tx \<in> set (new_records ident incoming S)"
          and "Print (''  Tx:     '' @ h) \<in> set (fst (print_transfer tx ty))"
          by (auto split: if_splits)
        with new_records_unseen [of tx ident incoming S] print_transfer_tx_line [of h tx ty] assms
        show False
          by simp
      qed
    qed
  qed
qed

lemma aave_round_seen_silent:
  assumes "h |\<in>| A"
  shows "Print (''  Tx:     '' @ h)
     \<notin> set (fst (aave_round first resp lookup (A, from_block)))"
proof (cases "fetch_aave_supply_logs resp")
  case (Pair r out)
  show ?thesis
  proof (cases r)
    case None
    with Pair fetch_aave_supply_logs_no_tx_line [of h resp] show ?thesis
      by (simp add: aave_round_def)
  next
    case (Some logs)
    with Pair have f: "fetch_aave_supply_logs resp = (Some logs, out)"
      by simp
    show ?thesis
    proof
      assume "Print (''  Tx:     '' @ h)
        \<in> set (fst (aave_round first resp lookup (A, from_block)))"
      from aave_round_effects [OF f this]
      obtain log ev where n: "log \<in> set (new_records log_ident logs (finsert [] A))"
        and d: "decode_supply_event log lookup = Inr ev"
        and p: "Print (''  Tx:     '' @ h) \<in> set (print_supply_event ev)"
        by auto
      from print_supply_event_tx_line [OF p] decode_supply_event_tx_hash [OF d]
      have "h = log_ident log"
        by simp
      with new_records_unseen [OF n] assms show False
        by simp
    qed
  qed
qed


lemma transfer_round_keeps:
  assumes "h |\<in>| S"
    and "snd (transfer_round address first (ty, action, sound) resp S) = Inr S'"
  shows "h |\<in>| S'
     \<or> (\<exists>transfers out incoming.
          fetch_transfers action resp = (Some transfers, out)
          \<and> filter_incoming transfers address ty = Inr incoming
          \<and> fcard (S |\<union>| idents ident incoming) > MAX_SEEN_HASHES
          \<and> S' = idents ident incoming)"
proof (cases "fetch_transfers action resp")
  case (Pair r out)
  show ?thesis
  proof (cases r)
    case None
    with Pair assms show ?thesis
      by (simp add: transfer_round_def)
  next
    case (Some transfers)
    with Pair have f: "fetch_transfers action resp = (Some transfers, out)"
      by simp
    from transfer_round_Inr [OF f assms(2)] obtain incoming where
      "filter_incoming transfers address ty = Inr incoming"
      "S' = (if fcard (S |\<union>| idents ident incoming) > MAX_SEEN_HASHES
             then idents ident incoming else S |\<union>| idents ident incoming)"
      by blast
    with f assms(1) show ?thesis
      by (cases "fcard (S |\<union>| idents ident incoming) > MAX_SEEN_HASHES") auto
  qed
qed

lemma aave_round_keeps:
  assumes "h |\<in>| A"
    and "snd (aave_round first resp lookup (A, from_block)) = Inr (A', from_block')"
  shows "h |\<in>| A'
     \<or> (\<exists>logs out.
          fetch_aave_supply_logs resp = (Some logs, out)
          \<and> fcard (if first then A |\<union>| idents log_ident logs
                    else A |\<union>| (idents log_ident logs |-| {|[]|})) > MAX_SEEN_HASHES
          \<and> A' = idents log_ident logs)"
proof (cases "fetch_aave_supply_logs resp")
  case (Pair r out)
  show ?thesis
  proof (cases r)
    case None
    with Pair assms show ?thesis
      by (simp add: aave_round_def)
  next
    case (Some logs)
    with Pair have f: "fetch_aave_supply_logs resp = (Some logs, out)"
      by simp
    let ?A1 = "if first then A |\<union>| idents log_ident logs
               else A |\<union>| (idents log_ident logs |-| {|[]|})"
    from aave_round_Inr [OF f assms(2)]
    have A': "A' = (if fcard ?A1 > MAX_SEEN_HASHES then idents log_ident logs else ?A1)"
      by (simp add: Let_def)
    show ?thesis
    proof (cases "fcard ?A1 > MAX_SEEN_HASHES")
      case True
      with A' have "A' = idents log_ident logs"
        by simp
      with True f show ?thesis
        by blast
    next
      case False
      with A' assms(1) show ?thesis
        by auto
    qed
  qed
qed

subsection \<open>The window of 1000 logs\<close>

lemma fcard_idents_distinct: "distinct (map f xs) \<Longrightarrow> fcard (idents f xs) = length xs"
proof -
  assume "distinct (map f xs)"
  then have "card (set (map f xs)) = length (map f xs)"
    by (rule distinct_card)
  then show ?thesis
    by (simp add: idents_def fcard.rep_eq fset_of_list.rep_eq)
qed

lemma batch_log_facts:
  "log_ident (batch_log i) = ''0xd'' @ replicate i CHR ''0''"
  "py_int 16 (get (batch_log i) ''blockNumber'' ''0x0'') = Inr 16"
  "block_num (batch_log i) = 16"
  "get (batch_log i) ''data'' ''0x'' = ''0x''"
proof -
  have p: "py_int 16 ''0x10'' = Inr 16"
    by code_simp
  show "log_ident (batch_log i) = ''0xd'' @ replicate i CHR ''0''"
    by (simp add: log_ident_def batch_log_def get_def)
  show "py_int 16 (get (batch_log i) ''blockNumber'' ''0x0'') = Inr 16"
    using p by (simp add: batch_log_def get_def)
  then show "block_num (batch_log i) = 16"
    by (simp add: block_num_def)
  show "get (batch_log i) ''data'' ''0x'' = ''0x''"
    by (simp add: batch_log_def get_def)
qed

lemma old_log_facts:
  "log_ident old_log = ''0xc0''"
  "py_int 16 (get old_log ''blockNumber'' ''0x0'') = Inr 16"
  "block_num old_log = 16"
  "get old_log ''data'' ''0x'' = ''0x''"
proof -
  have p: "py_int 16 ''0x10'' = Inr 16"
    by code_simp
  show "log_ident old_log = ''0xc0''"
    by (simp add: log_ident_def old_log_def get_def)
  show "py_int 16 (get old_log ''blockNumber'' ''0x0'') = Inr 16"
    using p by (simp add: old_log_def get_def)
  then show "block_num old_log = 16"
    by (simp add: block_num_def)
  show "get old_log ''data'' ''0x'' = ''0x''"
    by (simp add: old_log_def get_def)
qed

lemma batch_length: "length batch = 1000"
  by (simp add: batch_def)

lemma batch_idents:
  "fcard (idents log_ident batch) = 1000"
  "''0xc0'' |\<notin>| idents log_ident batch"
  "[] |\<notin>| idents log_ident batch"
proof -
  have "inj_on (\<lambda>i. ''0xd'' @ replicate i CHR ''0'') A" for A :: "nat set"
    by (rule inj_onI) (metis length_replicate same_append_eq)
  then have "distinct (map log_ident batch)"
    by (simp add: batch_def o_def batch_log_facts distinct_map)
  from fcard_idents_distinct [OF this] show "fcard (idents log_ident batch) = 1000"
    by (simp add: batch_length)
  show "''0xc0'' |\<notin>| idents log_ident batch"
    by (auto simp: idents_member batch_def batch_log_facts)
  show "[] |\<notin>| idents log_ident batch"
    by (auto simp: idents_member batch_def batch_log_facts)
qed

lemma batch_blocks: "fold max (map block_num batch) 16 = 16"
proof -
  have "block_num ` set batch \<subseteq> {16}"
    by (auto simp: batch_def batch_log_facts)
  then have "insert 16 (block_num ` set batch) = {16}"
    by auto
  then have "Max (insert 16 (block_num ` set batch)) = Max {16}"
    by (simp only:)
  then show ?thesis
    by (simp add: fold_max_Max)
qed

lemma short_log_decodes:
  assumes "get log ''data'' ''0x'' = ''0x''"
    and "py_int 16 (get log ''blockNumber'' ''0x0'') = Inr b"
  shows "decode_supply_event log Map.empty =
     Inr \<lparr>tx_hash = log_ident log, block_number = b, sender = None, user = ''unknown'',
          amount_display = ''0''\<rparr>"
  using assms format_token_amount_zero
  by (simp add: decode_supply_event_def Let_def log_ident_def)

lemma forgetting_rounds:
  "monitor_round example_address True (initial_state True None) (quiet_round (ok_reply [old_log]))
   = ([], Inr ((initial_state True None)
               \<lparr>first_run := False, aave_seen := {|''0xc0''|}, aave_from_block := 16\<rparr>))"
  "snd (monitor_round example_address True
     ((initial_state True None)
       \<lparr>first_run := False, aave_seen := {|''0xc0''|}, aave_from_block := 16\<rparr>)
     (quiet_round (ok_reply batch)))
   = Inr ((initial_state True None)
           \<lparr>first_run := False, aave_seen := idents log_ident batch, aave_from_block := 16\<rparr>)"
  "monitor_round example_address True
     ((initial_state True None)
       \<lparr>first_run := False, aave_seen := idents log_ident batch, aave_from_block := 16\<rparr>)
     (quiet_round (ok_reply [old_log]))
   = (print_supply_event \<lparr>tx_hash = ''0xc0'', block_number = 16, sender = None,
                           user = ''unknown'', amount_display = ''0''\<rparr> @ [Play AAVE_SOUND],
      Inr ((initial_state True None)
            \<lparr>first_run := False, aave_seen := {|''0xc0''|}, aave_from_block := 16\<rparr>))"
proof -
  have q: "aave_reply (quiet_round r) = r" "tx_sender (quiet_round r) = Map.empty" for r
    by (simp_all add: quiet_round_def)
  have 1: "aave_round True (ok_reply [old_log]) Map.empty ({||}, 0) = ([], Inr ({|''0xc0''|}, 16))"
    using aave_round_seeding [OF example_fetch_logs, of "[old_log]" Map.empty "{||}" 0]
    by (simp add: old_log_facts MAX_SEEN_HASHES_def fcard_finsert_if)
  show "monitor_round example_address True (initial_state True None)
      (quiet_round (ok_reply [old_log]))
   = ([], Inr ((initial_state True None)
               \<lparr>first_run := False, aave_seen := {|''0xc0''|}, aave_from_block := 16\<rparr>))"
    using 1 by (simp add: monitor_round_def quiet_transfer_rounds_initial initial_state_def q
        lift_def)
  have dec: "\<forall>log \<in> set (new_records log_ident batch (finsert [] {|''0xc0''|})).
      \<exists>ev. decode_supply_event log Map.empty = Inr ev"
  proof
    fix log assume "log \<in> set (new_records log_ident batch (finsert [] {|''0xc0''|}))"
    then have "log \<in> set batch"
      by (auto simp: new_records_def)
    then obtain i where "log = batch_log i"
      by (auto simp: batch_def)
    with short_log_decodes [of log 16] show "\<exists>ev. decode_supply_event log Map.empty = Inr ev"
      by (simp add: batch_log_facts)
  qed
  have blk: "\<forall>log \<in> set batch. \<exists>b. py_int 16 (get log ''blockNumber'' ''0x0'') = Inr b"
    by (auto simp: batch_def batch_log_facts)
  have un: "idents log_ident batch |-| {|[]|} = idents log_ident batch"
    using batch_idents(3) by auto
  have big: "fcard (finsert ''0xc0'' (idents log_ident batch)) > MAX_SEEN_HASHES"
    using batch_idents by (simp add: fcard_finsert_if MAX_SEEN_HASHES_def)
  have 2: "snd (aave_round False (ok_reply batch) Map.empty ({|''0xc0''|}, 16))
      = Inr (idents log_ident batch, 16)"
    using aave_round_steady [OF example_fetch_logs blk dec, of 16] big
    by (simp add: un batch_blocks)
  show "snd (monitor_round example_address True
     ((initial_state True None)
       \<lparr>first_run := False, aave_seen := {|''0xc0''|}, aave_from_block := 16\<rparr>)
     (quiet_round (ok_reply batch)))
   = Inr ((initial_state True None)
           \<lparr>first_run := False, aave_seen := idents log_ident batch, aave_from_block := 16\<rparr>)"
    using 2 by (simp add: monitor_round_def quiet_transfer_rounds_initial initial_state_def q
        lift_def snd_io_bind)
  have new: "new_records log_ident [old_log] (finsert [] (idents log_ident batch)) = [old_log]"
    using batch_idents(2) by (simp add: old_log_facts)
  have d: "decode_supply_event old_log Map.empty =
     Inr \<lparr>tx_hash = ''0xc0'', block_number = 16, sender = None, user = ''unknown'',
          amount_display = ''0''\<rparr>"
    using short_log_decodes [of old_log 16] by (simp add: old_log_facts)
  have un3: "idents log_ident [old_log] |-| {|[]|} = {|''0xc0''|}"
    by (auto simp: old_log_facts)
  have 3: "aave_round False (ok_reply [old_log]) Map.empty (idents log_ident batch, 16)
      = (print_supply_event \<lparr>tx_hash = ''0xc0'', block_number = 16, sender = None,
                              user = ''unknown'', amount_display = ''0''\<rparr> @ [Play AAVE_SOUND],
         Inr ({|''0xc0''|}, 16))"
  proof -
    have blk3: "\<forall>log \<in> set [old_log]. \<exists>b. py_int 16 (get log ''blockNumber'' ''0x0'') = Inr b"
      by (simp add: old_log_facts)
    have dec3: "\<forall>log \<in> set (new_records log_ident [old_log]
          (finsert [] (idents log_ident batch))).
        \<exists>ev. decode_supply_event log Map.empty = Inr ev"
      by (simp only: new) (simp add: d)
    from aave_round_steady [OF example_fetch_logs blk3 dec3, of 16] big show ?thesis
      by (simp only: new un3) (simp add: d old_log_facts)
  qed
  show "monitor_round example_address True
     ((initial_state True None)
       \<lparr>first_run := False, aave_seen := idents log_ident batch, aave_from_block := 16\<rparr>)
     (quiet_round (ok_reply [old_log]))
   = (print_supply_event \<lparr>tx_hash = ''0xc0'', block_number = 16, sender = None,
                           user = ''unknown'', amount_display = ''0''\<rparr> @ [Play AAVE_SOUND],
      Inr ((initial_state True None)
            \<lparr>first_run := False, aave_seen := {|''0xc0''|}, aave_from_block := 16\<rparr>))"
    using 3 by (simp add: monitor_round_def quiet_transfer_rounds_initial initial_state_def q
        lift_def)
qed

section \<open>Amount formatter: the examples of the specification, and ten units\<close>

lemma format_token_amount_spec_examples:
  "format_token_amount ''1000000000000000000'' (PStr ''18'') = Inr ''1''"
  "format_token_amount ''1500000000000000000'' (PStr ''18'') = Inr ''1.5''"
  "format_token_amount ''5'' (PStr ''0'') = Inr ''5''"
  by code_simp+

text \<open>
  C8.  The claim: for a raw non-negative integer and a decimals count \<open>d\<close>, the result is
  the value divided by \<open>10^d\<close> in plain decimal notation with trailing zeros and a trailing
  point stripped.  The three examples of the specification evaluate as stated
  (\<open>format_token_amount_spec_examples\<close>), but the function does not compute this in
  general: \<open>normalize\<close> also strips the zeros of an integer, and \<open>str\<close> then switches to
  scientific notation.  Ten units of an 18-decimals token, raw value \<open>10^19\<close>, are
  rendered as \<open>1E+1\<close>, not as \<open>10\<close>.
\<close>

theorem format_token_amount_ten_units:
  "format_token_amount ''10000000000000000000'' (PStr ''18'') = Inr ''1E+1''"
  by code_simp

section \<open>Event decoder: short payloads\<close>

text \<open>
  C7, as claimed: a payload shorter than 130 characters decodes to amount 0 and
  beneficiary \<open>unknown\<close>.  This fails for a payload of 66 to 129 characters: the
  beneficiary has its own guard (66 characters) and is decoded from the first word.
\<close>

theorem decode_supply_event_counterexample:
  "length ''0x000000000000000000000000a1b2c3d4e5f60718293a4b5c6d7e8f9012345678'' < (130::nat)
   \<and> decode_supply_event
       [''data'' \<mapsto> ''0x000000000000000000000000a1b2c3d4e5f60718293a4b5c6d7e8f9012345678'']
       Map.empty
     = Inr \<lparr>tx_hash = [], block_number = 0, sender = None,
            user = ''0xa1b2c3d4e5f60718293a4b5c6d7e8f9012345678'', amount_display = ''0''\<rparr>"
  using format_token_amount_zero py_int_0x0
  by (simp add: decode_supply_event_def get_def slice_def)

text \<open>
  C7, amended: for a log whose payload is shorter than 130 characters and whose block
  number is absent or a hexadecimal numeral, decoding succeeds with the amount shown as
  \<open>0\<close>; the beneficiary is \<open>unknown\<close> when the payload is shorter than 66 characters and
  is \<open>0x\<close> followed by the characters 26 to 65 of the payload otherwise.
\<close>

theorem decode_supply_event_short_payload:
  assumes "length (get log ''data'' ''0x'') < 130"
    and "py_int 16 (get log ''blockNumber'' ''0x0'') = Inr b"
  shows "decode_supply_event log lookup =
     Inr \<lparr>tx_hash = get log ''transactionHash'' [],
          block_number = b,
          sender = (if get log ''transactionHash'' [] \<noteq> []
                    then lookup (get log ''transactionHash'' []) else None),
          user = (if length (get log ''data'' ''0x'') < 66 then ''unknown''
                  else ''0x'' @ take 40 (drop 26 (get log ''data'' ''0x''))),
          amount_display = ''0''\<rparr>"
  using assms format_token_amount_zero
  by (simp add: decode_supply_event_def Let_def slice_def take_drop)

theorem decode_supply_event_short_payload_witness:
  "length (get [''data'' \<mapsto> ''0x'', ''blockNumber'' \<mapsto> ''0x10''] ''data'' ''0x'') < 130
   \<and> py_int 16 (get [''data'' \<mapsto> ''0x'', ''blockNumber'' \<mapsto> ''0x10''] ''blockNumber'' ''0x0'')
       = Inr 16
   \<and> decode_supply_event [''data'' \<mapsto> ''0x'', ''blockNumber'' \<mapsto> ''0x10''] Map.empty =
     Inr \<lparr>tx_hash = [], block_number = 16, sender = None, user = ''unknown'',
          amount_display = ''0''\<rparr>"
proof -
  have len: "length (get [''data'' \<mapsto> ''0x'', ''blockNumber'' \<mapsto> ''0x10''] ''data'' ''0x'') < 130"
    by (simp add: get_def)
  have "py_int 16 ''0x10'' = Inr 16"
    by code_simp
  then have blk: "py_int 16 (get [''data'' \<mapsto> ''0x'', ''blockNumber'' \<mapsto> ''0x10'']
      ''blockNumber'' ''0x0'') = Inr 16"
    by (simp add: get_def)
  show ?thesis
    using len blk decode_supply_event_short_payload [OF len blk, of Map.empty]
    by (simp add: get_def)
qed

section \<open>Filtering incoming transfers\<close>

text \<open>
  C9.  \<open>filter_incoming\<close> keeps exactly the transfers whose recipient equals the
  monitored address when both are lower-cased.  For the native-value category it keeps,
  of those, exactly the ones that did not error and whose value is a positive integer,
  so that a transfer with \<open>isError = "1"\<close> or \<open>value = "0"\<close> is never kept; it returns
  a list whenever the value of every such transfer parses as an integer.
\<close>

theorem filter_incoming_keeps:
  "(transfer_type \<noteq> ''ETH'' \<longrightarrow>
      filter_incoming transfers address transfer_type =
        Inr (filter (\<lambda>tx. lower (get tx ''to'' []) = lower address) transfers))
   \<and> ((\<forall>tx \<in> set transfers.
          lower (get tx ''to'' []) = lower address \<and> tx ''isError'' \<noteq> Some ''1''
          \<longrightarrow> (\<exists>v. py_int 10 (get tx ''value'' ''0'') = Inr v))
        \<longrightarrow> (\<exists>incoming. filter_incoming transfers address ''ETH'' = Inr incoming))
   \<and> (\<forall>incoming. filter_incoming transfers address ''ETH'' = Inr incoming \<longrightarrow>
        incoming = filter (\<lambda>tx. lower (get tx ''to'' []) = lower address
                      \<and> tx ''isError'' \<noteq> Some ''1''
                      \<and> (\<exists>v. py_int 10 (get tx ''value'' ''0'') = Inr v \<and> v > 0)) transfers
        \<and> (\<forall>tx \<in> set incoming. tx ''isError'' \<noteq> Some ''1'' \<and> tx ''value'' \<noteq> Some ''0''))"
proof (intro conjI impI allI)
  assume "transfer_type \<noteq> ''ETH''"
  then show "filter_incoming transfers address transfer_type =
        Inr (filter (\<lambda>tx. lower (get tx ''to'' []) = lower address) transfers)"
    by (simp add: filter_incoming_def)
next
  assume "\<forall>tx \<in> set transfers.
          lower (get tx ''to'' []) = lower address \<and> tx ''isError'' \<noteq> Some ''1''
          \<longrightarrow> (\<exists>v. py_int 10 (get tx ''value'' ''0'') = Inr v)"
  then have "\<exists>r. eth_only (filter (\<lambda>tx. lower (get tx ''to'' []) = lower address) transfers) = Inr r"
    by (intro eth_only_total) simp
  then show "\<exists>incoming. filter_incoming transfers address ''ETH'' = Inr incoming"
    by (simp add: filter_incoming_def)
next
  fix incoming
  assume a: "filter_incoming transfers address ''ETH'' = Inr incoming"
  then have "eth_only (filter (\<lambda>tx. lower (get tx ''to'' []) = lower address) transfers) = Inr incoming"
    by (simp add: filter_incoming_def)
  from eth_only_Inr [OF this]
  show i: "incoming = filter (\<lambda>tx. lower (get tx ''to'' []) = lower address
                      \<and> tx ''isError'' \<noteq> Some ''1''
                      \<and> (\<exists>v. py_int 10 (get tx ''value'' ''0'') = Inr v \<and> v > 0)) transfers"
    by (simp add: conj_commute conj_left_commute)
  show "\<forall>tx \<in> set incoming. tx ''isError'' \<noteq> Some ''1'' \<and> tx ''value'' \<noteq> Some ''0''"
  proof
    fix tx assume "tx \<in> set incoming"
    with i have e: "tx ''isError'' \<noteq> Some ''1''"
      and "\<exists>v. py_int 10 (get tx ''value'' ''0'') = Inr v \<and> v > 0"
      by auto
    then obtain v where v: "py_int 10 (get tx ''value'' ''0'') = Inr v" "v > 0"
      by blast
    have "tx ''value'' \<noteq> Some ''0''"
    proof
      assume "tx ''value'' = Some ''0''"
      then have "get tx ''value'' ''0'' = ''0''" by (simp add: get_def)
      with v py_int_zero show False by simp
    qed
    with e show "tx ''isError'' \<noteq> Some ''1'' \<and> tx ''value'' \<noteq> Some ''0''" by simp
  qed
qed

theorem filter_incoming_keeps_witness:
  "''TOKEN'' \<noteq> ''ETH''
   \<and> filter_incoming [paid, errored, worthless, elsewhere] example_address ''TOKEN''
       = Inr [paid, errored, worthless]
   \<and> filter_incoming [paid, errored, worthless, elsewhere] example_address ''ETH''
       = Inr [paid]"
  using filter_incoming_keeps [of "''TOKEN''" "[paid, errored, worthless, elsewhere]" example_address]
    example_recipients example_values
  by auto

section \<open>The steady round of a transfer channel\<close>

text \<open>
  C1.  In a steady round of a transfer channel whose query succeeds, whose filter
  returns, and whose surviving records all carry a hash and can be printed, the round
  returns, and it alerts on exactly the new records of the window (the records whose
  identifier is not in the Seen Set and does not occur earlier in the window), one alert
  each, in the reverse of the order of the window, which is newest first.  The number of
  alerts is the number \<open>N\<close> of identifiers of the window that are not in the Seen Set,
  and each of these identifiers is in the Seen Set afterwards.
\<close>

theorem steady_round_alerts:
  assumes "fetch_transfers action resp = (Some transfers, out)"
    and "filter_incoming transfers address ty = Inr incoming"
    and "\<forall>tx \<in> set incoming. tx ''hash'' \<noteq> None"
    and "\<forall>tx \<in> set incoming. snd (print_transfer tx ty) = Inr ()"
  shows "\<exists>S'. transfer_round address False (ty, action, sound) resp S =
            (concat (map (\<lambda>tx. fst (print_transfer tx ty) @ [Play sound])
                       (rev (new_records ident incoming S))), Inr S')
          \<and> length (filter is_play (fst (transfer_round address False (ty, action, sound) resp S)))
            = fcard (idents ident incoming |-| S)
          \<and> length (new_records ident incoming S) = fcard (idents ident incoming |-| S)
          \<and> idents ident incoming |-| S |\<subseteq>| S'"
proof -
  have sub: "set (new_records ident incoming S) \<subseteq> set incoming"
    by (auto simp: new_records_def)
  with assms(4)
  have pr: "\<forall>tx \<in> set (new_records ident incoming S). snd (print_transfer tx ty) = Inr ()"
    by blast
  let ?S' = "if fcard (S |\<union>| idents ident incoming) > MAX_SEEN_HASHES
             then idents ident incoming else S |\<union>| idents ident incoming"
  have round: "transfer_round address False (ty, action, sound) resp S =
      (concat (map (\<lambda>tx. fst (print_transfer tx ty) @ [Play sound])
                 (rev (new_records ident incoming S))), Inr ?S')"
    by (rule transfer_round_steady [OF assms(1-3) pr])
  have "length (filter is_play (concat (map (\<lambda>tx. fst (print_transfer tx ty) @ [Play sound])
            (rev (new_records ident incoming S)))))
      = length (rev (new_records ident incoming S))"
    by (rule count_plays) (auto dest: print_transfer_not_play)
  with round have plays:
    "length (filter is_play (fst (transfer_round address False (ty, action, sound) resp S)))
      = fcard (idents ident incoming |-| S)"
    by (simp add: length_new_records)
  have "idents ident incoming |-| S |\<subseteq>| ?S'"
    by auto
  with round plays show ?thesis
    by (auto simp: length_new_records)
qed

theorem steady_round_alerts_witness:
  "fetch_transfers ''txlist'' (ok_reply [paid_later, paid, errored, worthless, elsewhere])
     = (Some [paid_later, paid, errored, worthless, elsewhere], [])
   \<and> filter_incoming [paid_later, paid, errored, worthless, elsewhere] example_address ''ETH''
     = Inr [paid_later, paid]
   \<and> paid_later ''hash'' \<noteq> None \<and> paid ''hash'' \<noteq> None
   \<and> snd (print_transfer paid_later ''ETH'') = Inr () \<and> snd (print_transfer paid ''ETH'') = Inr ()
   \<and> (\<exists>S'. transfer_round example_address False (''ETH'', ''txlist'', ''Ping.aiff'')
               (ok_reply [paid_later, paid, errored, worthless, elsewhere]) {|''0xa7''|} =
             (fst (print_transfer paid ''ETH'') @ [Play ''Ping.aiff'']
              @ fst (print_transfer paid_later ''ETH'') @ [Play ''Ping.aiff''], Inr S')
            \<and> ''0xa0'' |\<in>| S' \<and> ''0xa1'' |\<in>| S')
   \<and> length (filter is_play (fst (transfer_round example_address False
          (''ETH'', ''txlist'', ''Ping.aiff'')
          (ok_reply [paid_later, paid, errored, worthless, elsewhere]) {|''0xa7''|}))) = 2"
proof -
  have new: "new_records ident [paid_later, paid] {|''0xa7''|} = [paid_later, paid]"
    by (simp add: example_hashes)
  have card: "fcard (idents ident [paid_later, paid] |-| {|''0xa7''|}) = 2"
    using length_new_records [of ident "[paid_later, paid]" "{|''0xa7''|}"] new by simp
  have ids: "idents ident [paid_later, paid] |-| {|''0xa7''|} = {|''0xa0'', ''0xa1''|}"
    by (auto simp: example_hashes)
  show ?thesis
    using steady_round_alerts [of "''txlist''"
        "ok_reply [paid_later, paid, errored, worthless, elsewhere]"
        "[paid_later, paid, errored, worthless, elsewhere]" "[]" example_address "''ETH''"
        "[paid_later, paid]" "''Ping.aiff''" "{|''0xa7''|}"]
      example_fetch example_filtered example_hashes example_printable new card ids
    by auto
qed

section \<open>Deduplication across rounds\<close>

text \<open>
  C2, as claimed: an identifier that was added to a Seen Set is never alerted on in a
  later round, whatever rounds came in between.  This fails when a round in between
  resets the set.  In the run below the protocol channel is seeded with the log of
  transaction \<open>0xc0\<close>; the second round returns a page of 1000 other logs, so that the
  set has 1001 identifiers after the additions and is replaced by the 1000 of the window;
  the third round returns the log of \<open>0xc0\<close> again and alerts on it.
\<close>

theorem seen_identifier_alerted_again_counterexample:
  "snd (monitor_loop example_address True (initial_state True None)
          [quiet_round (ok_reply [old_log])])
     = Inr ((initial_state True None)
             \<lparr>first_run := False, aave_seen := {|''0xc0''|}, aave_from_block := 16\<rparr>)
   \<and> length batch = 1000
   \<and> snd (monitor_loop example_address True (initial_state True None)
            [quiet_round (ok_reply [old_log]), quiet_round (ok_reply batch)])
     = Inr ((initial_state True None)
             \<lparr>first_run := False, aave_seen := idents log_ident batch, aave_from_block := 16\<rparr>)
   \<and> fst (monitor_round example_address True
            ((initial_state True None)
              \<lparr>first_run := False, aave_seen := idents log_ident batch, aave_from_block := 16\<rparr>)
            (quiet_round (ok_reply [old_log])))
     = print_supply_event \<lparr>tx_hash = ''0xc0'', block_number = 16, sender = None,
                            user = ''unknown'', amount_display = ''0''\<rparr> @ [Play AAVE_SOUND]
   \<and> Print ''  Tx:     0xc0''
       \<in> set (fst (monitor_loop example_address True (initial_state True None)
                     [quiet_round (ok_reply [old_log]), quiet_round (ok_reply batch),
                      quiet_round (ok_reply [old_log])]))"
proof -
  obtain out2 where 2: "monitor_round example_address True
     ((initial_state True None)
       \<lparr>first_run := False, aave_seen := {|''0xc0''|}, aave_from_block := 16\<rparr>)
     (quiet_round (ok_reply batch))
   = (out2, Inr ((initial_state True None)
           \<lparr>first_run := False, aave_seen := idents log_ident batch, aave_from_block := 16\<rparr>))"
    using forgetting_rounds(2) by (metis prod.collapse)
  have "Print ''  Tx:     0xc0''
      \<in> set (print_supply_event \<lparr>tx_hash = ''0xc0'', block_number = 16, sender = None,
                            user = ''unknown'', amount_display = ''0''\<rparr>)"
    by (simp add: print_supply_event_def)
  with forgetting_rounds(1,3) 2 batch_length show ?thesis
    by (simp add: lift_def)
qed

text \<open>
  C2, amended: a round emits no alert for an identifier that is in the channel's Seen Set
  at the start of the round (no alert block with its \<open>Tx\<close> line), whether the round
  returns or raises.  An identifier of the Seen Set is still in it after a round that
  returns, unless the round reset the set: the set after the round's additions had more
  than 1000 identifiers and was replaced by the identifiers of the round's window.  The
  additions are the identifiers of the surviving transfers; for the protocol channel
  they are the transaction hashes of the logs, without the empty hash after the seeding
  round.
\<close>

theorem seen_identifier_not_alerted:
  "(h |\<in>| S \<longrightarrow>
      Print (''  Tx:     '' @ h)
        \<notin> set (fst (transfer_round address first (ty, action, sound) resp S)))
   \<and> (h |\<in>| A \<longrightarrow>
      Print (''  Tx:     '' @ h)
        \<notin> set (fst (aave_round first aresp lookup (A, from_block))))
   \<and> (h |\<in>| S \<and> snd (transfer_round address first (ty, action, sound) resp S) = Inr S' \<longrightarrow>
      h |\<in>| S'
      \<or> (\<exists>transfers out incoming.
           fetch_transfers action resp = (Some transfers, out)
           \<and> filter_incoming transfers address ty = Inr incoming
           \<and> fcard (S |\<union>| idents ident incoming) > MAX_SEEN_HASHES
           \<and> S' = idents ident incoming))
   \<and> (h |\<in>| A \<and> snd (aave_round first aresp lookup (A, from_block)) = Inr (A', from_block') \<longrightarrow>
      h |\<in>| A'
      \<or> (\<exists>logs out.
           fetch_aave_supply_logs aresp = (Some logs, out)
           \<and> fcard (if first then A |\<union>| idents log_ident logs
                     else A |\<union>| (idents log_ident logs |-| {|[]|})) > MAX_SEEN_HASHES
           \<and> A' = idents log_ident logs))"
  using transfer_round_seen_silent [of h S address first ty action sound resp]
    aave_round_seen_silent [of h A first aresp lookup from_block]
    transfer_round_keeps [of h S address first ty action sound resp S']
    aave_round_keeps [of h A first aresp lookup from_block A' from_block']
  by blast

theorem seen_identifier_not_alerted_witness:
  "''0xa7'' |\<in>| {|''0xa7''|}
   \<and> Print (''  Tx:     '' @ ''0xa7'')
       \<notin> set (fst (transfer_round example_address False (''ETH'', ''txlist'', ''Ping.aiff'')
                      (ok_reply [paid_later, paid, errored, worthless, elsewhere]) {|''0xa7''|}))
   \<and> snd (transfer_round example_address False (''ETH'', ''txlist'', ''Ping.aiff'')
            (ok_reply [paid_later, paid, errored, worthless, elsewhere]) {|''0xa7''|})
     = Inr {|''0xa7'', ''0xa0'', ''0xa1''|}
   \<and> ''0xa7'' |\<in>| {|''0xa7'', ''0xa0'', ''0xa1''|}
   \<and> ''0xb1'' |\<in>| {|''0xb1''|}
   \<and> Print (''  Tx:     '' @ ''0xb1'')
       \<notin> set (fst (aave_round False (ok_reply [supply_log]) Map.empty ({|''0xb1''|}, 16)))
   \<and> snd (aave_round False (ok_reply [supply_log]) Map.empty ({|''0xb1''|}, 16))
     = Inr ({|''0xb1''|}, 16)"
proof -
  have a: "aave_round False (ok_reply [supply_log]) Map.empty ({|''0xb1''|}, 16)
      = ([], Inr ({|''0xb1''|}, 16))"
    using aave_round_steady [OF example_fetch_logs, of "[supply_log]" "{|''0xb1''|}" Map.empty 16]
    by (simp add: example_log_facts example_block MAX_SEEN_HASHES_def fcard_finsert_if)
  show ?thesis
    using seen_identifier_not_alerted [where h = "''0xa7''" and S = "{|''0xa7''|}"
        and address = example_address and first = False and ty = "''ETH''"
        and action = "''txlist''" and sound = "''Ping.aiff''"
        and resp = "ok_reply [paid_later, paid, errored, worthless, elsewhere]"
        and S' = "{|''0xa7'', ''0xa0'', ''0xa1''|}"]
      seen_identifier_not_alerted [where h = "''0xb1''" and A = "{|''0xb1''|}"
        and first = False and aresp = "ok_reply [supply_log]" and lookup = Map.empty
        and from_block = 16 and A' = "{|''0xb1''|}" and from_block' = 16]
      example_steady_round a
    by simp
qed

section \<open>The seeding round\<close>

text \<open>
  C3.  A channel round of the seeding phase emits nothing but the line that a failed
  query logs: no alert, whether the round returns or raises.  When the query succeeds,
  the filter returns and every surviving transfer carries a hash, the round returns and
  the identifier of every surviving transfer is in the Seen Set afterwards; likewise, when
  the log query succeeds and every block number parses, the transaction hash of every
  log is in the Seen Set of the protocol channel afterwards.
\<close>

theorem seeding_round_silent:
  "fst (transfer_round address True (ty, action, sound) resp S) = snd (fetch_transfers action resp)
   \<and> fst (aave_round True aresp lookup (A, from_block)) = snd (fetch_aave_supply_logs aresp)
   \<and> (fetch_transfers action resp = (Some transfers, out)
        \<and> filter_incoming transfers address ty = Inr incoming
        \<and> (\<forall>tx \<in> set incoming. tx ''hash'' \<noteq> None)
      \<longrightarrow> (\<exists>S'. transfer_round address True (ty, action, sound) resp S = ([], Inr S')
                \<and> (\<forall>tx \<in> set incoming. ident tx |\<in>| S')))
   \<and> (fetch_aave_supply_logs aresp = (Some logs, aout)
        \<and> (\<forall>log \<in> set logs. \<exists>b. py_int 16 (get log ''blockNumber'' ''0x0'') = Inr b)
      \<longrightarrow> (\<exists>A' from_block'.
                aave_round True aresp lookup (A, from_block) = ([], Inr (A', from_block'))
                \<and> (\<forall>log \<in> set logs. log_ident log |\<in>| A')))"
proof (intro conjI impI)
  show "fst (transfer_round address True (ty, action, sound) resp S)
      = snd (fetch_transfers action resp)"
  proof (cases "fetch_transfers action resp")
    case (Pair r out)
    then show ?thesis
      by (cases r) (auto simp: transfer_round_def lift_def fst_io_bind split: sum.splits)
  qed
next
  show "fst (aave_round True aresp lookup (A, from_block)) = snd (fetch_aave_supply_logs aresp)"
  proof (cases "fetch_aave_supply_logs aresp")
    case (Pair r out)
    then show ?thesis
      by (cases r) (auto simp: aave_round_def lift_def fst_io_bind split: sum.splits)
  qed
next
  assume a: "fetch_transfers action resp = (Some transfers, out)
        \<and> filter_incoming transfers address ty = Inr incoming
        \<and> (\<forall>tx \<in> set incoming. tx ''hash'' \<noteq> None)"
  then have "transfer_round address True (ty, action, sound) resp S =
     ([], Inr (if fcard (S |\<union>| idents ident incoming) > MAX_SEEN_HASHES
               then idents ident incoming else S |\<union>| idents ident incoming))"
    by (intro transfer_round_seeding) auto
  then show "\<exists>S'. transfer_round address True (ty, action, sound) resp S = ([], Inr S')
                \<and> (\<forall>tx \<in> set incoming. ident tx |\<in>| S')"
    by (auto simp: idents_member)
next
  assume a: "fetch_aave_supply_logs aresp = (Some logs, aout)
        \<and> (\<forall>log \<in> set logs. \<exists>b. py_int 16 (get log ''blockNumber'' ''0x0'') = Inr b)"
  then have "aave_round True aresp lookup (A, from_block) =
     ([], Inr (if fcard (A |\<union>| idents log_ident logs) > MAX_SEEN_HASHES
               then idents log_ident logs else A |\<union>| idents log_ident logs,
               fold max (map block_num logs) from_block))"
    by (intro aave_round_seeding) auto
  then show "\<exists>A' from_block'.
                aave_round True aresp lookup (A, from_block) = ([], Inr (A', from_block'))
                \<and> (\<forall>log \<in> set logs. log_ident log |\<in>| A')"
    by (auto simp: idents_member)
qed

theorem seeding_round_silent_witness:
  "fetch_transfers ''txlist'' (ok_reply [paid_later, paid, errored, worthless, elsewhere])
     = (Some [paid_later, paid, errored, worthless, elsewhere], [])
   \<and> filter_incoming [paid_later, paid, errored, worthless, elsewhere] example_address ''ETH''
     = Inr [paid_later, paid]
   \<and> paid_later ''hash'' \<noteq> None \<and> paid ''hash'' \<noteq> None
   \<and> (\<exists>S'. transfer_round example_address True (''ETH'', ''txlist'', ''Ping.aiff'')
               (ok_reply [paid_later, paid, errored, worthless, elsewhere]) {||} = ([], Inr S')
            \<and> ''0xa0'' |\<in>| S' \<and> ''0xa1'' |\<in>| S')
   \<and> fetch_aave_supply_logs (ok_reply [supply_log]) = (Some [supply_log], [])
   \<and> py_int 16 (get supply_log ''blockNumber'' ''0x0'') = Inr 16
   \<and> (\<exists>A' from_block'.
         aave_round True (ok_reply [supply_log]) Map.empty ({||}, 0) = ([], Inr (A', from_block'))
         \<and> ''0xb1'' |\<in>| A')"
  using seeding_round_silent [of example_address "''ETH''" "''txlist''" "''Ping.aiff''"
      "ok_reply [paid_later, paid, errored, worthless, elsewhere]" "{||}"
      "ok_reply [supply_log]" Map.empty "{||}" 0
      "[paid_later, paid, errored, worthless, elsewhere]" "[]" "[paid_later, paid]"
      "[supply_log]" "[]"]
    example_fetch example_fetch_logs example_filtered example_hashes example_log_facts
  by auto

section \<open>The bound on the Seen Sets\<close>

text \<open>
  C4.  Started from the initial state and run over rounds whose query windows hold at
  most the page size (10 transfers, 1000 logs), the loop leaves every Seen Set with at
  most \<open>MAX_SEEN_HASHES\<close> = 1000 identifiers after every round.  In a round whose query
  succeeds, the Seen Set after the round is the set after the round's additions, unless
  that set has more than 1000 identifiers: then it is exactly the identifier set of the
  round's surviving results (of the round's logs, for the protocol channel).
\<close>

theorem seen_set_bounded:
  "((\<forall>inp \<in> set inps. page_sized inp)
      \<and> snd (monitor_loop address watch_aave (initial_state watch_aave block) inps) = Inr s
     \<longrightarrow> (\<forall>t. fcard (seen s t) \<le> MAX_SEEN_HASHES) \<and> fcard (aave_seen s) \<le> MAX_SEEN_HASHES)
   \<and> (fetch_transfers action resp = (Some transfers, out)
      \<and> snd (transfer_round address first (ty, action, sound) resp S) = Inr S'
     \<longrightarrow> (\<exists>incoming. filter_incoming transfers address ty = Inr incoming
           \<and> S' = (if fcard (S |\<union>| idents ident incoming) > MAX_SEEN_HASHES
                   then idents ident incoming else S |\<union>| idents ident incoming)))
   \<and> (fetch_aave_supply_logs aresp = (Some logs, aout)
      \<and> snd (aave_round first aresp lookup (A, from_block)) = Inr (A', from_block')
     \<longrightarrow> A' = (let A1 = (if first then A |\<union>| idents log_ident logs
                           else A |\<union>| (idents log_ident logs |-| {|[]|}))
               in if fcard A1 > MAX_SEEN_HASHES then idents log_ident logs else A1))"
proof -
  have bound: "(\<forall>t. fcard (seen s t) \<le> MAX_SEEN_HASHES) \<and> fcard (aave_seen s) \<le> MAX_SEEN_HASHES"
    if a: "(\<forall>inp \<in> set inps. page_sized inp)
      \<and> snd (monitor_loop address watch_aave (initial_state watch_aave block) inps) = Inr s"
  proof -
    from a have 1:
      "snd (monitor_loop address watch_aave (initial_state watch_aave block) inps) = Inr s"
      and 2: "\<forall>inp \<in> set inps. page_sized inp"
      by auto
    from monitor_loop_bounded [OF 1 _ _ 2] initial_state_bounded [of watch_aave block]
    show ?thesis
      by blast
  qed
  have transfer: "\<exists>incoming. filter_incoming transfers address ty = Inr incoming
           \<and> S' = (if fcard (S |\<union>| idents ident incoming) > MAX_SEEN_HASHES
                   then idents ident incoming else S |\<union>| idents ident incoming)"
    if "fetch_transfers action resp = (Some transfers, out)
      \<and> snd (transfer_round address first (ty, action, sound) resp S) = Inr S'"
    using that transfer_round_Inr [of action resp transfers out address first ty sound S S']
    by blast
  have aave: "A' = (let A1 = (if first then A |\<union>| idents log_ident logs
                           else A |\<union>| (idents log_ident logs |-| {|[]|}))
               in if fcard A1 > MAX_SEEN_HASHES then idents log_ident logs else A1)"
    if "fetch_aave_supply_logs aresp = (Some logs, aout)
      \<and> snd (aave_round first aresp lookup (A, from_block)) = Inr (A', from_block')"
    using that aave_round_Inr [of aresp logs aout first lookup A from_block A' from_block']
    by blast
  from bound transfer aave show ?thesis
    by blast
qed

theorem seen_set_bounded_witness:
  "page_sized (quiet_round (ok_reply [supply_log])) \<and> page_sized (quiet_round nothing_found)
   \<and> snd (monitor_loop example_address True (initial_state True (Some 210))
            [quiet_round (ok_reply [supply_log]), quiet_round nothing_found])
     = Inr ((initial_state True (Some 210))
             \<lparr>first_run := False, aave_seen := {|''0xb1''|}, aave_from_block := 16\<rparr>)
   \<and> fcard {|''0xb1''|} \<le> MAX_SEEN_HASHES
   \<and> fetch_transfers ''txlist'' (ok_reply [paid_later, paid, errored, worthless, elsewhere])
     = (Some [paid_later, paid, errored, worthless, elsewhere], [])
   \<and> snd (transfer_round example_address False (''ETH'', ''txlist'', ''Ping.aiff'')
            (ok_reply [paid_later, paid, errored, worthless, elsewhere]) {|''0xa7''|})
     = Inr {|''0xa7'', ''0xa0'', ''0xa1''|}
   \<and> (\<exists>incoming.
         filter_incoming [paid_later, paid, errored, worthless, elsewhere] example_address ''ETH''
           = Inr incoming
         \<and> {|''0xa7'', ''0xa0'', ''0xa1''|}
           = (if fcard ({|''0xa7''|} |\<union>| idents ident incoming) > MAX_SEEN_HASHES
              then idents ident incoming else {|''0xa7''|} |\<union>| idents ident incoming))
   \<and> fetch_aave_supply_logs (ok_reply [supply_log]) = (Some [supply_log], [])
   \<and> snd (aave_round True (ok_reply [supply_log]) Map.empty ({||}, 10))
     = Inr ({|''0xb1''|}, 16)"
proof -
  have a: "aave_round True (ok_reply [supply_log]) Map.empty ({||}, 10)
      = ([], Inr ({|''0xb1''|}, 16))"
    using aave_round_seeding [OF example_fetch_logs, of "[supply_log]" Map.empty "{||}" 10]
    by (simp add: example_log_facts example_block MAX_SEEN_HASHES_def fcard_finsert_if)
  show ?thesis
    using seen_set_bounded [where inps = "[quiet_round (ok_reply [supply_log]), quiet_round nothing_found]"
        and address = example_address and watch_aave = True and block = "Some 210"
        and s = "(initial_state True (Some 210))
             \<lparr>first_run := False, aave_seen := {|''0xb1''|}, aave_from_block := 16\<rparr>"
        and action = "''txlist''"
        and resp = "ok_reply [paid_later, paid, errored, worthless, elsewhere]"
        and transfers = "[paid_later, paid, errored, worthless, elsewhere]" and out = "[]"
        and first = False and ty = "''ETH''" and sound = "''Ping.aiff''" and S = "{|''0xa7''|}"
        and S' = "{|''0xa7'', ''0xa0'', ''0xa1''|}"]
      page_sized_quiet(1) [of "[supply_log]"] page_sized_quiet(2) example_two_rounds
      example_steady_round example_fetch example_fetch_logs a
    by simp
qed

section \<open>The Block Cursor\<close>

text \<open>
  C5.  Across a round that returns, the Block Cursor does not decrease.  When the
  protocol channel is watched and the log query succeeds, the cursor after the round is
  the maximum of its old value and the block numbers of the round's logs, in the seeding
  phase and after; when the channel is not watched, the query fails or the result is
  empty, the cursor is unchanged.  Hence the cursor does not decrease over any number
  of rounds.
\<close>

theorem block_cursor_monotone:
  "(\<forall>s'. snd (monitor_round address watch_aave s inp) = Inr s' \<longrightarrow>
      aave_from_block s \<le> aave_from_block s'
      \<and> (watch_aave \<longrightarrow>
           (\<forall>logs out. fetch_aave_supply_logs (aave_reply inp) = (Some logs, out)
              \<longrightarrow> aave_from_block s' = Max (insert (aave_from_block s) (block_num ` set logs))))
      \<and> (\<not> watch_aave \<or> fst (fetch_aave_supply_logs (aave_reply inp)) = None
           \<or> fst (fetch_aave_supply_logs (aave_reply inp)) = Some []
           \<longrightarrow> aave_from_block s' = aave_from_block s))
   \<and> (\<forall>s'. snd (monitor_loop address watch_aave s inps) = Inr s'
        \<longrightarrow> aave_from_block s \<le> aave_from_block s')"
  using monitor_round_cursor [of address watch_aave s inp]
    monitor_loop_cursor [of address watch_aave s inps]
  by blast

theorem block_cursor_monotone_witness:
  "snd (monitor_round example_address True (initial_state True (Some 210))
          (quiet_round (ok_reply [supply_log])))
     = Inr ((initial_state True (Some 210))
             \<lparr>first_run := False, aave_seen := {|''0xb1''|}, aave_from_block := 16\<rparr>)
   \<and> fetch_aave_supply_logs (aave_reply (quiet_round (ok_reply [supply_log])))
     = (Some [supply_log], [])
   \<and> aave_from_block (initial_state True (Some 210)) = 10
   \<and> Max (insert 10 (block_num ` set [supply_log])) = 16
   \<and> snd (monitor_loop example_address True (initial_state True (Some 210))
            [quiet_round (ok_reply [supply_log]), quiet_round nothing_found])
     = Inr ((initial_state True (Some 210))
             \<lparr>first_run := False, aave_seen := {|''0xb1''|}, aave_from_block := 16\<rparr>)
   \<and> aave_from_block (initial_state True (Some 210))
     \<le> aave_from_block ((initial_state True (Some 210))
             \<lparr>first_run := False, aave_seen := {|''0xb1''|}, aave_from_block := 16\<rparr>)"
  using block_cursor_monotone [of example_address True "initial_state True (Some 210)"
      "quiet_round (ok_reply [supply_log])"
      "[quiet_round (ok_reply [supply_log]), quiet_round nothing_found]"]
    example_first_round example_second_round example_fetch_logs [of "[supply_log]"] example_block
  by (simp add: lift_def quiet_round_def [of "ok_reply [supply_log]", THEN arg_cong [where f = aave_reply]]
      initial_state_def AAVE_LOOKBACK_BLOCKS_def)

section \<open>Empty results and failures\<close>

text \<open>
  C6.  A transport failure and a parse failure make the query return \<open>None\<close> and log a
  line; a reply whose status is not \<open>1\<close> and whose message says that no transactions
  were found makes it return the empty list and log nothing.  A round whose query returned
  \<open>None\<close> is skipped: the Seen Set is unchanged and nothing but the logged line is
  emitted.  A round whose query returned the empty list has no candidate: it emits
  nothing, and it leaves the Seen Set as it is, the set being within its bound of 1000
  at the start of the round; it is so in every state that the loop reaches from the
  initial state through rounds of page-sized windows.  The same holds for the protocol
  channel with its cursor.
\<close>

theorem empty_result_is_not_failure:
  "fetch_transfers action (RequestException e)
     = (None, [Print (''  ['' @ action @ '' network error] '' @ e)])
   \<and> fetch_transfers action (ParseError e)
     = (None, [Print (''  ['' @ action @ '' parse error] '' @ e)])
   \<and> (st \<noteq> Some ''1'' \<and> contains msg ''No transactions found''
        \<longrightarrow> fetch_transfers action (Body st (Some msg) res) = (Some [], []))
   \<and> (fst (fetch_transfers action resp) = None
        \<longrightarrow> transfer_round address first (ty, action, sound) resp S
              = (snd (fetch_transfers action resp), Inr S)
            \<and> (\<exists>line. snd (fetch_transfers action resp) = [Print line]))
   \<and> (fst (fetch_transfers action resp) = Some [] \<and> fcard S \<le> MAX_SEEN_HASHES
        \<longrightarrow> transfer_round address first (ty, action, sound) resp S = ([], Inr S))
   \<and> ((\<forall>inp \<in> set inps. page_sized inp)
        \<and> snd (monitor_loop address watch_aave (initial_state watch_aave block) inps) = Inr s
        \<and> fst (fetch_transfers action resp) = Some []
        \<longrightarrow> transfer_round address (first_run s) (ty, action, sound) resp (seen s ty)
              = ([], Inr (seen s ty)))
   \<and> (fst (fetch_aave_supply_logs aresp) = None
        \<longrightarrow> aave_round first aresp lookup (A, from_block)
              = (snd (fetch_aave_supply_logs aresp), Inr (A, from_block)))
   \<and> (fst (fetch_aave_supply_logs aresp) = Some [] \<and> fcard A \<le> MAX_SEEN_HASHES
        \<longrightarrow> aave_round first aresp lookup (A, from_block) = ([], Inr (A, from_block)))"
proof -
  have skipped: "transfer_round address first (ty, action, sound) resp S
              = (snd (fetch_transfers action resp), Inr S)
            \<and> (\<exists>line. snd (fetch_transfers action resp) = [Print line])"
    if "fst (fetch_transfers action resp) = None"
  proof -
    from that have f: "fetch_transfers action resp = (None, snd (fetch_transfers action resp))"
      by (metis prod.collapse)
    from transfer_round_skipped [OF f] fetch_transfers_None [OF f] show ?thesis
      by simp
  qed
  have empty: "transfer_round address first (ty, action, sound) resp S = ([], Inr S)"
    if "fst (fetch_transfers action resp) = Some [] \<and> fcard S \<le> MAX_SEEN_HASHES"
  proof -
    from that have f: "fetch_transfers action resp = (Some [], snd (fetch_transfers action resp))"
      by (metis prod.collapse)
    from transfer_round_empty [OF f] that show ?thesis
      by (simp add: not_less [symmetric])
  qed
  have reached: "transfer_round address (first_run s) (ty, action, sound) resp (seen s ty)
              = ([], Inr (seen s ty))"
    if a: "(\<forall>inp \<in> set inps. page_sized inp)
        \<and> snd (monitor_loop address watch_aave (initial_state watch_aave block) inps) = Inr s
        \<and> fst (fetch_transfers action resp) = Some []"
  proof -
    from a have 1:
      "snd (monitor_loop address watch_aave (initial_state watch_aave block) inps) = Inr s"
      and 2: "\<forall>inp \<in> set inps. page_sized inp"
      by auto
    from monitor_loop_bounded [OF 1 _ _ 2] initial_state_bounded [of watch_aave block]
    have b: "fcard (seen s ty) \<le> MAX_SEEN_HASHES"
      by blast
    from a have f: "fetch_transfers action resp = (Some [], snd (fetch_transfers action resp))"
      by (metis prod.collapse)
    from transfer_round_empty [OF f] b show ?thesis
      by (simp add: not_less [symmetric])
  qed
  have askipped: "aave_round first aresp lookup (A, from_block)
              = (snd (fetch_aave_supply_logs aresp), Inr (A, from_block))"
    if "fst (fetch_aave_supply_logs aresp) = None"
  proof -
    from that have f: "fetch_aave_supply_logs aresp = (None, snd (fetch_aave_supply_logs aresp))"
      by (metis prod.collapse)
    from aave_round_skipped [OF f] show ?thesis .
  qed
  have aempty: "aave_round first aresp lookup (A, from_block) = ([], Inr (A, from_block))"
    if "fst (fetch_aave_supply_logs aresp) = Some [] \<and> fcard A \<le> MAX_SEEN_HASHES"
  proof -
    from that
    have f: "fetch_aave_supply_logs aresp = (Some [], snd (fetch_aave_supply_logs aresp))"
      by (metis prod.collapse)
    from aave_round_empty [OF f] that show ?thesis
      by (simp add: not_less [symmetric])
  qed
  have found: "fetch_transfers action (Body st (Some msg) res) = (Some [], [])"
    if "st \<noteq> Some ''1'' \<and> contains msg ''No transactions found''"
    using that by (simp add: fetch_transfers_def)
  have "fetch_transfers action (RequestException e)
     = (None, [Print (''  ['' @ action @ '' network error] '' @ e)])"
    "fetch_transfers action (ParseError e)
     = (None, [Print (''  ['' @ action @ '' parse error] '' @ e)])"
    by (simp_all add: fetch_transfers_def)
  with skipped empty reached askipped aempty found show ?thesis
    by blast
qed

theorem empty_result_is_not_failure_witness:
  "Some ''0'' \<noteq> Some ''1'' \<and> contains ''No transactions found'' ''No transactions found''
   \<and> fetch_transfers ''txlist'' (Body (Some ''0'') (Some ''No transactions found'') (Some []))
     = (Some [], [])
   \<and> fst (fetch_transfers ''txlist'' (RequestException ''timed out'')) = None
   \<and> transfer_round example_address False (''ETH'', ''txlist'', ''Ping.aiff'')
       (RequestException ''timed out'') {|''0xa7''|}
     = ([Print ''  [txlist network error] timed out''], Inr {|''0xa7''|})
   \<and> fst (fetch_transfers ''txlist'' nothing_found) = Some []
   \<and> fcard {|''0xa7''|} \<le> MAX_SEEN_HASHES
   \<and> transfer_round example_address False (''ETH'', ''txlist'', ''Ping.aiff'')
       nothing_found {|''0xa7''|}
     = ([], Inr {|''0xa7''|})
   \<and> fst (fetch_aave_supply_logs (ParseError ''bad body'')) = None
   \<and> aave_round False (ParseError ''bad body'') Map.empty ({|''0xb1''|}, 16)
     = ([Print ''  [aave getLogs parse error] bad body''], Inr ({|''0xb1''|}, 16))
   \<and> fst (fetch_aave_supply_logs nothing_found) = Some []
   \<and> aave_round False nothing_found Map.empty ({|''0xb1''|}, 16)
     = ([], Inr ({|''0xb1''|}, 16))"
proof -
  have c: "contains ''No transactions found'' ''No transactions found''"
    by simp
  have f1: "fetch_transfers ''txlist'' (RequestException ''timed out'')
      = (None, [Print ''  [txlist network error] timed out''])"
    by (simp add: fetch_transfers_def)
  have f2: "fetch_aave_supply_logs (ParseError ''bad body'')
      = (None, [Print ''  [aave getLogs parse error] bad body''])"
    by (simp add: fetch_aave_supply_logs_def)
  have b: "fcard {|''0xa7''|} \<le> MAX_SEEN_HASHES" "fcard {|''0xb1''|} \<le> MAX_SEEN_HASHES"
    by (simp_all add: MAX_SEEN_HASHES_def fcard_finsert_if)
  show ?thesis
    using empty_result_is_not_failure [where action = "''txlist''" and st = "Some ''0''"
        and msg = "''No transactions found''" and res = "Some []"
        and resp = "RequestException ''timed out''" and address = example_address
        and first = False and ty = "''ETH''" and sound = "''Ping.aiff''" and S = "{|''0xa7''|}"
        and aresp = "ParseError ''bad body''" and lookup = Map.empty and A = "{|''0xb1''|}"
        and from_block = 16]
      empty_result_is_not_failure [where action = "''txlist''"
        and resp = nothing_found and address = example_address
        and first = False and ty = "''ETH''" and sound = "''Ping.aiff''" and S = "{|''0xa7''|}"
        and aresp = nothing_found and lookup = Map.empty and A = "{|''0xb1''|}"
        and from_block = 16]
      c f1 f2 b nothing_found_fetch [of "''txlist''"] nothing_found_logs
    by simp
qed

section \<open>A round that raises\<close>

text \<open>
  C10.  The claim: once the loop has started, no sequence of query responses makes a
  round raise an exception to the caller.  The queries catch the failures of the
  transport and of the parser, but the records of a successful reply are read outside
  of them: a transfer to the monitored address whose value is not a decimal numeral
  makes \<open>int()\<close> raise ValueError in \<open>filter_incoming\<close>, and the loop ends with it in
  its second round.
\<close>

theorem monitor_loop_raises:
  "monitor_loop example_address False (initial_state False None)
     [quiet_round nothing_found, malformed_round]
   = ([], Inl ValueError)"
proof -
  have 1: "monitor_round example_address False (initial_state False None)
      (quiet_round nothing_found)
    = ([], Inr ((initial_state False None)\<lparr>first_run := False\<rparr>))"
    by (simp add: monitor_round_def quiet_transfer_rounds_initial initial_state_def lift_def)
  have "transfer_round example_address False (''ETH'', ''txlist'', sound)
      (ok_reply [malformed]) {||} = ([], Inl ValueError)" for sound
    by (simp add: transfer_round_def example_fetch malformed_filter lift_def emit_def)
  then have "transfer_rounds example_address False TRANSFER_TYPES
      (transfer_reply malformed_round) (\<lambda>t. {||}) = ([], Inl ValueError)"
    by (simp add: TRANSFER_TYPES_def malformed_round_def)
  then have 2: "monitor_round example_address False
      ((initial_state False None)\<lparr>first_run := False\<rparr>) malformed_round
    = ([], Inl ValueError)"
    by (simp add: monitor_round_def initial_state_def)
  from 1 2 show ?thesis
    by simp
qed


end
